theory Spec2Isabelle
  imports Complex_Main "HOL-Library.Log_Nat"
begin

text \<open>
  A model of \<open>script.js\<close>, a compound interest calculator: five functions that solve
  \<open>A = P (1 + r/n)^(n T)\<close> for one of its variables, and a form controller that validates
  the inputs, calls the function for the selected variable and renders its result.
\<close>

section \<open>JavaScript Number values\<close>

text \<open>
  A JavaScript Number is an IEEE 754 binary64 value: not-a-number, the two infinities, the
  two zeros, or a finite non-zero real.  \<open>Fin 0\<close> is the positive zero and \<open>NZero\<close> the
  negative one.  \<open>Fin x\<close> is allowed for every real \<open>x\<close>, so the type contains every double
  (and more): what is proved for all \<open>jsnum\<close> holds for all doubles.
\<close>

datatype jsnum = NaN | PInf | NInf | NZero | Fin real

fun isNaN :: "jsnum \<Rightarrow> bool" where
  "isNaN NaN = True"
| "isNaN _ = False"

fun isFinite :: "jsnum \<Rightarrow> bool" where
  "isFinite NaN = False"
| "isFinite PInf = False"
| "isFinite NInf = False"
| "isFinite _ = True"

text \<open>
  The position of a number on the extended real line: \<open>tier\<close> separates the infinities
  from the finite values, \<open>mag\<close> is the real value of a finite number (both zeros are 0).
\<close>

fun tier :: "jsnum \<Rightarrow> int" where
  "tier PInf = 1"
| "tier NInf = - 1"
| "tier _ = 0"

fun mag :: "jsnum \<Rightarrow> real" where
  "mag (Fin x) = x"
| "mag _ = 0"

fun signbit :: "jsnum \<Rightarrow> bool" where
  "signbit NInf = True"
| "signbit NZero = True"
| "signbit (Fin x) = (x < 0)"
| "signbit _ = False"

text \<open>
  The relational operators \<open><\<close>, \<open><=\<close>, \<open>>\<close> and the strict equality \<open>===\<close> on Numbers:
  every comparison with NaN is false, and the two zeros are equal.
\<close>

definition js_lt :: "jsnum \<Rightarrow> jsnum \<Rightarrow> bool" where
  "js_lt a b = (\<not> isNaN a \<and> \<not> isNaN b \<and> (tier a < tier b \<or> (tier a = tier b \<and> mag a < mag b)))"

definition js_le :: "jsnum \<Rightarrow> jsnum \<Rightarrow> bool" where
  "js_le a b = (\<not> isNaN a \<and> \<not> isNaN b \<and> (tier a < tier b \<or> (tier a = tier b \<and> mag a \<le> mag b)))"

definition js_gt :: "jsnum \<Rightarrow> jsnum \<Rightarrow> bool" where
  "js_gt a b = js_lt b a"

definition js_seq :: "jsnum \<Rightarrow> jsnum \<Rightarrow> bool" where
  "js_seq a b = (\<not> isNaN a \<and> \<not> isNaN b \<and> tier a = tier b \<and> mag a = mag b)"

section \<open>IEEE 754 binary64 arithmetic\<close>

text \<open>
  Rounding to nearest, ties to even, with 53 significant bits: \<open>ilog2 y\<close> is the integer
  logarithm \<open>\<lfloor>log\<^sub>2 y\<rfloor>\<close> of a positive \<open>y\<close>, computed from bit lengths; \<open>binade x\<close> is the
  exponent of the binade of \<open>x\<close> (clamped at the subnormal range), \<open>ulp x\<close> the spacing of
  the doubles there, and \<open>round64 x\<close> the multiple of \<open>ulp x\<close> nearest to \<open>x\<close>.
\<close>

definition ilog2 :: "real \<Rightarrow> int" where
  "ilog2 y = (if 1 \<le> y then bitlen \<lfloor>y\<rfloor> - 1 else - bitlen (\<lceil>1 / y\<rceil> - 1))"

definition binade :: "real \<Rightarrow> int" where
  "binade x = (if x = 0 then - 1022 else max (ilog2 \<bar>x\<bar>) (- 1022))"

definition ulp :: "real \<Rightarrow> real" where
  "ulp x = 2 powi (binade x - 52)"

definition rne :: "real \<Rightarrow> int" where
  "rne q = (let f = \<lfloor>q\<rfloor>; d = q - of_int f in
     if d < 1 / 2 then f else if 1 / 2 < d then f + 1 else if even f then f else f + 1)"

definition round64 :: "real \<Rightarrow> real" where
  "round64 x = of_int (rne (x / ulp x)) * ulp x"

text \<open>
  \<open>fl neg0 x\<close> is the double that an operation with exact result \<open>x\<close> returns: the rounded
  value, an infinity on overflow, and a signed zero when the rounded value is zero
  (\<open>neg0\<close> is the sign that the operation gives an exact zero).
\<close>

definition fl :: "bool \<Rightarrow> real \<Rightarrow> jsnum" where
  "fl neg0 x = (let y = round64 x in
     if 2 ^ 1024 \<le> y then PInf
     else if y \<le> - (2 ^ 1024) then NInf
     else if y = 0 then (if x < 0 \<or> (x = 0 \<and> neg0) then NZero else Fin 0)
     else Fin y)"

definition inf_signed :: "bool \<Rightarrow> jsnum" where
  "inf_signed neg = (if neg then NInf else PInf)"

definition zero_signed :: "bool \<Rightarrow> jsnum" where
  "zero_signed neg = (if neg then NZero else Fin 0)"

definition fmul :: "jsnum \<Rightarrow> jsnum \<Rightarrow> jsnum" where
  "fmul a b =
    (if isNaN a \<or> isNaN b then NaN
     else if tier a \<noteq> 0 \<or> tier b \<noteq> 0 then
       (if (tier a = 0 \<and> mag a = 0) \<or> (tier b = 0 \<and> mag b = 0) then NaN
        else inf_signed (signbit a \<noteq> signbit b))
     else fl (signbit a \<noteq> signbit b) (mag a * mag b))"

definition fdiv :: "jsnum \<Rightarrow> jsnum \<Rightarrow> jsnum" where
  "fdiv a b =
    (if isNaN a \<or> isNaN b then NaN
     else if tier a \<noteq> 0 then
       (if tier b \<noteq> 0 then NaN else inf_signed (signbit a \<noteq> signbit b))
     else if tier b \<noteq> 0 then zero_signed (signbit a \<noteq> signbit b)
     else if mag b = 0 then
       (if mag a = 0 then NaN else inf_signed (signbit a \<noteq> signbit b))
     else fl (signbit a \<noteq> signbit b) (mag a / mag b))"

definition fadd :: "jsnum \<Rightarrow> jsnum \<Rightarrow> jsnum" where
  "fadd a b =
    (if isNaN a \<or> isNaN b then NaN
     else if tier a \<noteq> 0 then (if tier b \<noteq> 0 \<and> tier b \<noteq> tier a then NaN else a)
     else if tier b \<noteq> 0 then b
     else fl (signbit a \<and> signbit b) (mag a + mag b))"

fun fneg :: "jsnum \<Rightarrow> jsnum" where
  "fneg NaN = NaN"
| "fneg PInf = NInf"
| "fneg NInf = PInf"
| "fneg NZero = Fin 0"
| "fneg (Fin x) = (if x = 0 then NZero else Fin (- x))"

definition fsub :: "jsnum \<Rightarrow> jsnum \<Rightarrow> jsnum" where
  "fsub a b = fadd a (fneg b)"

section \<open>Built-in functions of the host\<close>

text \<open>
  The script calls functions of the JavaScript host that are not part of the repository.
  ECMAScript leaves the results of \<open>Math.pow\<close> and \<open>Math.log\<close> implementation-approximated,
  and parsing and formatting of numbers play no part in the solvers, so they are
  parameters of the model: every theorem below holds for every host.
\<close>

record js_builtins =
  Math_pow :: "jsnum \<Rightarrow> jsnum \<Rightarrow> jsnum"
  Math_log :: "jsnum \<Rightarrow> jsnum"
  Math_round :: "jsnum \<Rightarrow> jsnum"
  parseFloat :: "string \<Rightarrow> jsnum"
  parseInt :: "string \<Rightarrow> jsnum"
  toFixed :: "jsnum \<Rightarrow> nat \<Rightarrow> string"
  toUpperCase :: "string \<Rightarrow> string"
  Number_toString :: "jsnum \<Rightarrow> string"

section \<open>Core calculation functions\<close>

text \<open>
  A solver returns an object literal with exactly the properties it writes:
  \<open>{ error: ... }\<close>, \<open>{ message: ... }\<close> or \<open>{ value: ... }\<close>.  A property that is absent
  (\<open>undefined\<close> when read) is \<open>None\<close>.
\<close>

record result =
  r_error :: "string option"
  r_message :: "string option"
  r_value :: "jsnum option"

definition error_result :: "string \<Rightarrow> result" where
  "error_result m = \<lparr>r_error = Some m, r_message = None, r_value = None\<rparr>"

definition message_result :: "string \<Rightarrow> result" where
  "message_result m = \<lparr>r_error = None, r_message = Some m, r_value = None\<rparr>"

definition value_result :: "jsnum \<Rightarrow> result" where
  "value_result v = \<lparr>r_error = None, r_message = None, r_value = Some v\<rparr>"

text \<open>
  The five functions of \<open>script.js\<close>, lines 3 to 93, statement by statement.  The
  conditions are JavaScript comparisons, so every test on a NaN is false.
\<close>

definition calculateFinalAmount ::
  "js_builtins \<Rightarrow> jsnum \<Rightarrow> jsnum \<Rightarrow> jsnum \<Rightarrow> jsnum \<Rightarrow> result" where
  "calculateFinalAmount js P R_annual T_years n_compound_freq =
    (if js_le P (Fin 0) \<or> js_lt R_annual (Fin 0) \<or> js_le T_years (Fin 0)
        \<or> js_le n_compound_freq (Fin 0)
     then error_result
       ''Principal, Rate, Time, and Frequency must be positive. Rate can be zero.''
     else
       let R_decimal = fdiv R_annual (Fin 100);
           A = fmul P (Math_pow js (fadd (Fin 1) (fdiv R_decimal n_compound_freq))
                                   (fmul n_compound_freq T_years))
       in value_result A)"

definition calculatePrincipal ::
  "js_builtins \<Rightarrow> jsnum \<Rightarrow> jsnum \<Rightarrow> jsnum \<Rightarrow> jsnum \<Rightarrow> result" where
  "calculatePrincipal js A R_annual T_years n_compound_freq =
    (if js_le A (Fin 0) \<or> js_lt R_annual (Fin 0) \<or> js_le T_years (Fin 0)
        \<or> js_le n_compound_freq (Fin 0)
     then error_result
       ''Amount, Rate, Time, and Frequency must be positive. Rate can be zero.''
     else
       let R_decimal = fdiv R_annual (Fin 100);
           P = fdiv A (Math_pow js (fadd (Fin 1) (fdiv R_decimal n_compound_freq))
                                   (fmul n_compound_freq T_years))
       in value_result P)"

definition calculateRate ::
  "js_builtins \<Rightarrow> jsnum \<Rightarrow> jsnum \<Rightarrow> jsnum \<Rightarrow> jsnum \<Rightarrow> result" where
  "calculateRate js A P T_years n_compound_freq =
    (if js_le A (Fin 0) \<or> js_le P (Fin 0) \<or> js_le T_years (Fin 0)
        \<or> js_le n_compound_freq (Fin 0)
     then error_result ''Amount, Principal, Time, and Frequency must be positive.''
     else if js_lt A P
     then error_result
       ''Final Amount (A) cannot be less than Principal (P) when calculating rate.''
     else
       let base = fdiv A P;
           exponent = fdiv (Fin 1) (fmul n_compound_freq T_years)
       in
         if js_lt base (Fin 0)
         then error_result
           ''Cannot calculate rate with negative A/P ratio (should not happen with positive A, P).''
         else
           let term = Math_pow js base exponent;
               R_decimal = fmul n_compound_freq (fsub term (Fin 1))
           in
             if isNaN R_decimal \<or> \<not> isFinite R_decimal
             then error_result ''Could not calculate a valid rate. Check input values.''
             else
               let R_annual = fmul R_decimal (Fin 100)
               in value_result R_annual)"

definition calculateTime ::
  "js_builtins \<Rightarrow> jsnum \<Rightarrow> jsnum \<Rightarrow> jsnum \<Rightarrow> jsnum \<Rightarrow> result" where
  "calculateTime js A P R_annual n_compound_freq =
    (if js_le A (Fin 0) \<or> js_le P (Fin 0) \<or> js_le R_annual (Fin 0)
        \<or> js_le n_compound_freq (Fin 0)
     then error_result
       ''Amount, Principal, Rate, and Frequency must be positive for time calculation.''
     else if js_lt A P \<and> js_gt R_annual (Fin 0)
     then error_result
       ''Final Amount (A) cannot be less than Principal (P) if rate is positive.''
     else if js_seq A P \<and> js_gt R_annual (Fin 0) then value_result (Fin 0)
     else if js_gt A P \<and> js_seq R_annual (Fin 0)
     then error_result ''Rate must be greater than 0 for Amount to grow.''
     else
       let R_decimal = fdiv R_annual (Fin 100);
           numerator = Math_log js (fdiv A P);
           denominator =
             fmul n_compound_freq (Math_log js (fadd (Fin 1) (fdiv R_decimal n_compound_freq)))
       in
         if js_seq denominator (Fin 0)
         then error_result
           ''Cannot calculate time. Possible division by zero (check rate and frequency).''
         else if js_le (fdiv A P) (Fin 0)
         then error_result ''Cannot calculate time with non-positive A/P ratio.''
         else if js_le (fadd (Fin 1) (fdiv R_decimal n_compound_freq)) (Fin 0)
         then error_result
           ''Cannot calculate time due to log of non-positive value in denominator.''
         else
           let T_years = fdiv numerator denominator
           in
             if isNaN T_years \<or> \<not> isFinite T_years
             then error_result
               ''Could not calculate a valid time. Check input values (e.g. A < P with positive rate).''
             else value_result T_years)"

definition calculateFrequency :: "jsnum \<Rightarrow> jsnum \<Rightarrow> jsnum \<Rightarrow> jsnum \<Rightarrow> result" where
  "calculateFrequency A P R_annual T_years =
    message_result
      ''Solving for Compounding Frequency (n) directly is mathematically complex and not supported by this calculator. Consider testing different 'n' values by solving for 'A'.''"

section \<open>The form controller\<close>

text \<open>
  The part of the document that the script reads and writes: the five input elements
  (their \<open>value\<close>, \<open>disabled\<close> and \<open>style.backgroundColor\<close>), the \<open>value\<close> of the
  \<open>solveFor\<close> select and the \<open>innerHTML\<close> of the result element.
\<close>

record input_el =
  el_value :: string
  el_disabled :: bool
  el_backgroundColor :: string

record dom =
  principalInput :: input_el
  rateInput :: input_el
  timeInput :: input_el
  frequencyInput :: input_el
  amountInput :: input_el
  solveForSelect :: string
  resultDiv :: string

text \<open>
  \<open>updateInputStates\<close> (lines 130 to 147) enables every input and then disables and clears
  the one that the select names.
\<close>

definition enable_input :: "input_el \<Rightarrow> input_el" where
  "enable_input e = e\<lparr>el_disabled := False, el_backgroundColor := ''''\<rparr>"

definition disable_input :: "input_el \<Rightarrow> input_el" where
  "disable_input e = e\<lparr>el_disabled := True, el_value := '''', el_backgroundColor := ''#e9e9e9''\<rparr>"

definition updateInputStates :: "dom \<Rightarrow> dom" where
  "updateInputStates d0 =
    (let solveForValue = solveForSelect d0;
         d = d0\<lparr>principalInput := enable_input (principalInput d0),
                rateInput := enable_input (rateInput d0),
                timeInput := enable_input (timeInput d0),
                frequencyInput := enable_input (frequencyInput d0),
                amountInput := enable_input (amountInput d0)\<rparr>
     in
       if solveForValue = ''principal'' then d\<lparr>principalInput := disable_input (principalInput d)\<rparr>
       else if solveForValue = ''rate'' then d\<lparr>rateInput := disable_input (rateInput d)\<rparr>
       else if solveForValue = ''time'' then d\<lparr>timeInput := disable_input (timeInput d)\<rparr>
       else if solveForValue = ''frequency'' then d\<lparr>frequencyInput := disable_input (frequencyInput d)\<rparr>
       else if solveForValue = ''amount'' then d\<lparr>amountInput := disable_input (amountInput d)\<rparr>
       else d)"

text \<open>
  The chain \<open>if (r.error) ... else if (r.message) ... else if (r.value !== undefined) ...
  else ...\<close> (lines 215 to 241) that chooses what is rendered.  A string is truthy when
  it is not empty; an absent property is \<open>undefined\<close>.
\<close>

datatype branch = ShowError string | ShowMessage string | ShowValue jsnum | Unexpected

definition render_branch :: "result \<Rightarrow> branch" where
  "render_branch calculationResult =
    (case r_error calculationResult of
       Some (c # cs) \<Rightarrow> ShowError (c # cs)
     | _ \<Rightarrow>
      (case r_message calculationResult of
         Some (c # cs) \<Rightarrow> ShowMessage (c # cs)
       | _ \<Rightarrow>
        (case r_value calculationResult of
           Some v \<Rightarrow> ShowValue v
         | None \<Rightarrow> Unexpected)))"

definition render :: "js_builtins \<Rightarrow> string \<Rightarrow> result \<Rightarrow> string" where
  "render js solveForValue calculationResult =
    (case render_branch calculationResult of
       ShowError e \<Rightarrow> ''<p class=\"error\">'' @ e @ ''</p>''
     | ShowMessage m \<Rightarrow> ''<p>'' @ m @ ''</p>''
     | ShowValue v \<Rightarrow>
         (let resultLabel = toUpperCase js (take 1 solveForValue) @ drop 1 solveForValue;
              resultValueDisplay0 = parseFloat js (toFixed js v 4);
              (unit, resultValueDisplay) =
                (if solveForValue = ''rate'' then (''%'', parseFloat js (toFixed js v 2))
                 else if solveForValue = ''time'' then ('' years'', parseFloat js (toFixed js v 2))
                 else if solveForValue = ''principal'' \<or> solveForValue = ''amount''
                   then ('''', parseFloat js (toFixed js v 2))
                 else if solveForValue = ''frequency'' then ('''', Math_round js v)
                 else ('''', resultValueDisplay0))
          in ''<p>'' @ resultLabel @ '': '' @ Number_toString js resultValueDisplay @ unit @ ''</p>'')
     | Unexpected \<Rightarrow> ''<p class=\"error\">An unexpected error occurred during calculation.</p>'')"

text \<open>
  \<open>performCalculation\<close> (lines 154 to 242) returns the document it leaves behind and, as
  a record of what it did, the names of the solver functions it called.
\<close>

definition performCalculation :: "js_builtins \<Rightarrow> dom \<Rightarrow> dom \<times> string list" where
  "performCalculation js d0 =
    (let d = d0\<lparr>resultDiv := ''''\<rparr>;
         P_val = parseFloat js (el_value (principalInput d));
         R_val = parseFloat js (el_value (rateInput d));
         T_val = parseFloat js (el_value (timeInput d));
         n_val = parseInt js (el_value (frequencyInput d));
         A_val = parseFloat js (el_value (amountInput d));
         solveForValue = solveForSelect d;
         validationError =
           (if solveForValue \<noteq> ''principal'' \<and> \<not> el_disabled (principalInput d)
               \<and> (isNaN P_val \<or> js_le P_val (Fin 0))
            then ''Principal (P) must be a positive number.''
            else if solveForValue \<noteq> ''rate'' \<and> \<not> el_disabled (rateInput d)
               \<and> (isNaN R_val \<or> js_lt R_val (Fin 0))
            then ''Rate (R) must be a non-negative number.''
            else if solveForValue \<noteq> ''time'' \<and> \<not> el_disabled (timeInput d)
               \<and> (isNaN T_val \<or> js_le T_val (Fin 0))
            then ''Time (T) must be a positive number.''
            else if solveForValue \<noteq> ''frequency'' \<and> \<not> el_disabled (frequencyInput d)
               \<and> (isNaN n_val \<or> js_le n_val (Fin 0))
            then ''Compounding Frequency (n) must be a positive integer.''
            else if solveForValue \<noteq> ''amount'' \<and> \<not> el_disabled (amountInput d)
               \<and> (isNaN A_val \<or> js_le A_val (Fin 0))
            then ''Final Amount (A) must be a positive number.''
            else '''')
     in
       if validationError \<noteq> ''''
       then (d\<lparr>resultDiv := ''<p class=\"error\">'' @ validationError @ ''</p>''\<rparr>, [])
       else
         let (calculationResult, calls) =
           (if solveForValue = ''amount''
              then (calculateFinalAmount js P_val R_val T_val n_val, [''calculateFinalAmount''])
            else if solveForValue = ''principal''
              then (calculatePrincipal js A_val R_val T_val n_val, [''calculatePrincipal''])
            else if solveForValue = ''rate''
              then (calculateRate js A_val P_val T_val n_val, [''calculateRate''])
            else if solveForValue = ''time''
              then (calculateTime js A_val P_val R_val n_val, [''calculateTime''])
            else if solveForValue = ''frequency''
              then (calculateFrequency A_val P_val R_val T_val, [''calculateFrequency''])
            else (error_result ''Invalid selection for 'solve for'.'', []))
         in (d\<lparr>resultDiv := render js solveForValue calculationResult\<rparr>, calls))"

section \<open>A sample host\<close>

text \<open>
  One host, used where a theorem is instantiated at a concrete input.  Its \<open>Math.pow\<close>
  and \<open>Math.log\<close> follow the case distinctions of ECMAScript (\<open>Number::exponentiate\<close>,
  \<open>Math.log\<close>) and round the real result correctly where the standard asks for an
  approximation; \<open>Math.round\<close> rounds half up.  Its parsers read an unsigned decimal
  numeral at the start of the string, as those of ECMAScript do: \<open>parseInt\<close> reads the
  digits and stops at the first other character, \<open>parseFloat\<close> reads the digits, a point
  and the digits after it; both return NaN when the string starts with no such numeral.
  What else the parsers of ECMAScript read (white space, signs, exponents, hexadecimal
  numerals, \<open>Infinity\<close>) is left out.  Formatting is left out too (its functions return
  the empty string): no statement below is about the text of a formatted number.
\<close>

definition integral :: "jsnum \<Rightarrow> bool" where
  "integral e = (isFinite e \<and> mag e = of_int \<lfloor>mag e\<rfloor>)"

definition odd_integral :: "jsnum \<Rightarrow> bool" where
  "odd_integral e = (integral e \<and> odd \<lfloor>mag e\<rfloor>)"

definition pow_ref :: "jsnum \<Rightarrow> jsnum \<Rightarrow> jsnum" where
  "pow_ref b e =
    (if isNaN e then NaN
     else if tier e = 0 \<and> mag e = 0 then Fin 1
     else if isNaN b then NaN
     else if b = PInf then (if js_gt e (Fin 0) then PInf else Fin 0)
     else if b = NInf then
       (if js_gt e (Fin 0) then (if odd_integral e then NInf else PInf)
        else (if odd_integral e then NZero else Fin 0))
     else if b = Fin 0 then (if js_gt e (Fin 0) then Fin 0 else PInf)
     else if b = NZero then
       (if js_gt e (Fin 0) then (if odd_integral e then NZero else Fin 0)
        else (if odd_integral e then NInf else PInf))
     else if e = PInf then
       (if 1 < \<bar>mag b\<bar> then PInf else if \<bar>mag b\<bar> = 1 then NaN else Fin 0)
     else if e = NInf then
       (if 1 < \<bar>mag b\<bar> then Fin 0 else if \<bar>mag b\<bar> = 1 then NaN else PInf)
     else if mag b < 0 \<and> \<not> integral e then NaN
     else if mag b < 0 \<and> odd_integral e then fl True (- (\<bar>mag b\<bar> powr mag e))
     else fl False (\<bar>mag b\<bar> powr mag e))"

definition log_ref :: "jsnum \<Rightarrow> jsnum" where
  "log_ref x =
    (if isNaN x then NaN
     else if js_lt x (Fin 0) then NaN
     else if tier x = 0 \<and> mag x = 0 then NInf
     else if x = PInf then PInf
     else fl False (ln (mag x)))"

definition round_ref :: "jsnum \<Rightarrow> jsnum" where
  "round_ref x =
    (if \<not> isFinite x \<or> mag x = of_int \<lfloor>mag x\<rfloor> then x
     else if \<lfloor>mag x + 1 / 2\<rfloor> = 0 then zero_signed (mag x < 0)
     else Fin (of_int \<lfloor>mag x + 1 / 2\<rfloor>))"

definition is_digit :: "char \<Rightarrow> bool" where
  "is_digit c = (48 \<le> (of_char c :: nat) \<and> (of_char c :: nat) \<le> 57)"

definition decimal_value :: "string \<Rightarrow> nat" where
  "decimal_value ds = foldl (\<lambda>acc c. 10 * acc + (of_char c - 48)) 0 ds"

definition parseInt_ref :: "string \<Rightarrow> jsnum" where
  "parseInt_ref s =
    (let ds = takeWhile is_digit s
     in if ds = [] then NaN else fl False (of_nat (decimal_value ds)))"

definition parseFloat_ref :: "string \<Rightarrow> jsnum" where
  "parseFloat_ref s =
    (let ds = takeWhile is_digit s;
         fs = (case dropWhile is_digit s of
                 [] \<Rightarrow> []
               | c # cs \<Rightarrow> if c = CHR ''.'' then takeWhile is_digit cs else [])
     in if ds = [] \<and> fs = [] then NaN
        else fl False (of_nat (decimal_value ds) + of_nat (decimal_value fs) / 10 ^ length fs))"

definition sample_host :: js_builtins where
  "sample_host =
    \<lparr>Math_pow = pow_ref, Math_log = log_ref, Math_round = round_ref,
     parseFloat = parseFloat_ref, parseInt = parseInt_ref,
     toFixed = (\<lambda>v digits. ''''), toUpperCase = (\<lambda>s. s), Number_toString = (\<lambda>v. '''')\<rparr>"



section \<open>The vocabulary of the specification\<close>

text \<open>
  The script reports every failure as a message.  The messages, by the function that
  returns them:
\<close>

abbreviation E_amount_positive :: string where
  "E_amount_positive \<equiv>
    ''Principal, Rate, Time, and Frequency must be positive. Rate can be zero.''"

abbreviation E_principal_positive :: string where
  "E_principal_positive \<equiv>
    ''Amount, Rate, Time, and Frequency must be positive. Rate can be zero.''"

abbreviation E_rate_positive :: string where
  "E_rate_positive \<equiv> ''Amount, Principal, Time, and Frequency must be positive.''"

abbreviation E_rate_less :: string where
  "E_rate_less \<equiv>
    ''Final Amount (A) cannot be less than Principal (P) when calculating rate.''"

abbreviation E_rate_ratio :: string where
  "E_rate_ratio \<equiv>
    ''Cannot calculate rate with negative A/P ratio (should not happen with positive A, P).''"

abbreviation E_rate_invalid :: string where
  "E_rate_invalid \<equiv> ''Could not calculate a valid rate. Check input values.''"

abbreviation E_time_positive :: string where
  "E_time_positive \<equiv>
    ''Amount, Principal, Rate, and Frequency must be positive for time calculation.''"

abbreviation E_time_less :: string where
  "E_time_less \<equiv>
    ''Final Amount (A) cannot be less than Principal (P) if rate is positive.''"

abbreviation E_time_zero_rate :: string where
  "E_time_zero_rate \<equiv> ''Rate must be greater than 0 for Amount to grow.''"

abbreviation E_time_division :: string where
  "E_time_division \<equiv>
    ''Cannot calculate time. Possible division by zero (check rate and frequency).''"

abbreviation E_time_ratio :: string where
  "E_time_ratio \<equiv> ''Cannot calculate time with non-positive A/P ratio.''"

abbreviation E_time_log :: string where
  "E_time_log \<equiv>
    ''Cannot calculate time due to log of non-positive value in denominator.''"

abbreviation E_time_invalid :: string where
  "E_time_invalid \<equiv>
    ''Could not calculate a valid time. Check input values (e.g. A < P with positive rate).''"

text \<open>
  The error taxonomy of the specification, and the class of each message under it: a
  value outside its sign or positivity range is \<open>InvalidInput\<close>; values that are valid one
  by one but inconsistent together are a \<open>DomainViolation\<close>; an undefined or non-finite
  closed form is a \<open>NumericDomainError\<close>.
\<close>

datatype error_class = InvalidInput | DomainViolation | NumericDomainError | UnsupportedOperation

definition error_class_of :: "string \<Rightarrow> error_class option" where
  "error_class_of m =
    (if m = E_amount_positive \<or> m = E_principal_positive \<or> m = E_rate_positive
        \<or> m = E_time_positive then Some InvalidInput
     else if m = E_rate_less \<or> m = E_time_less \<or> m = E_time_zero_rate
       then Some DomainViolation
     else if m = E_rate_ratio \<or> m = E_rate_invalid \<or> m = E_time_division
        \<or> m = E_time_ratio \<or> m = E_time_log \<or> m = E_time_invalid
       then Some NumericDomainError
     else None)"

definition failure_class :: "result \<Rightarrow> error_class option" where
  "failure_class r = (case r_error r of None \<Rightarrow> None | Some m \<Rightarrow> error_class_of m)"

text \<open>
  A result carries exactly one of its three properties.
\<close>

definition exactly_one :: "result \<Rightarrow> bool" where
  "exactly_one r =
    ((r_error r \<noteq> None \<and> r_message r = None \<and> r_value r = None)
     \<or> (r_error r = None \<and> r_message r \<noteq> None \<and> r_value r = None)
     \<or> (r_error r = None \<and> r_message r = None \<and> r_value r \<noteq> None))"

text \<open>
  The five fields of the form in the order in which they are validated, the constraint
  on each, and the message that names it.
\<close>

datatype field = Principal | Rate | Time | Frequency | Amount

definition field_order :: "field list" where
  "field_order = [Principal, Rate, Time, Frequency, Amount]"

fun field_key :: "field \<Rightarrow> string" where
  "field_key Principal = ''principal''"
| "field_key Rate = ''rate''"
| "field_key Time = ''time''"
| "field_key Frequency = ''frequency''"
| "field_key Amount = ''amount''"

fun field_input :: "dom \<Rightarrow> field \<Rightarrow> input_el" where
  "field_input d Principal = principalInput d"
| "field_input d Rate = rateInput d"
| "field_input d Time = timeInput d"
| "field_input d Frequency = frequencyInput d"
| "field_input d Amount = amountInput d"




text \<open>
  The number that a field holds is what \<open>parseFloat\<close> reads from its text.  The
  constraints of the specification on it: principal, time and amount must be a positive
  number, the rate must be a non-negative number, the frequency must be a positive
  integer.  The first violation is the first field in the order of validation, other
  than the target, whose number violates its constraint.
\<close>

definition positive_number :: "jsnum \<Rightarrow> bool" where
  "positive_number v = js_gt v (Fin 0)"

definition non_negative_number :: "jsnum \<Rightarrow> bool" where
  "non_negative_number v = js_le (Fin 0) v"

definition positive_integer :: "jsnum \<Rightarrow> bool" where
  "positive_integer v = (integral v \<and> js_gt v (Fin 0))"

fun violates :: "field \<Rightarrow> jsnum \<Rightarrow> bool" where
  "violates Rate v = (\<not> non_negative_number v)"
| "violates Frequency v = (\<not> positive_integer v)"
| "violates _ v = (\<not> positive_number v)"

definition field_number :: "js_builtins \<Rightarrow> dom \<Rightarrow> field \<Rightarrow> jsnum" where
  "field_number js d f = parseFloat js (el_value (field_input d f))"


text \<open>
  The first field that the controller rejects (lines 166 to 187).  It differs from the
  first violation in the frequency, which the controller reads with \<open>parseInt\<close> and of
  which it tests only that it is a positive number.
\<close>

definition first_rejected :: "js_builtins \<Rightarrow> dom \<Rightarrow> field option" where
  "first_rejected js d =
    find (\<lambda>f. field_key f \<noteq> solveForSelect d
        \<and> (if f = Frequency
           then \<not> positive_number (parseInt js (el_value (frequencyInput d)))
           else violates f (field_number js d f)))
      field_order"


text \<open>
  The state of the \<open>disabled\<close> flags that \<open>updateInputStates\<close> establishes: the input of
  the field that is solved for is disabled, every other input is enabled.
\<close>

definition wired :: "dom \<Rightarrow> bool" where
  "wired d = list_all (\<lambda>f. el_disabled (field_input d f) = (solveForSelect d = field_key f)) field_order"

abbreviation frequency_advisory :: string where
  "frequency_advisory \<equiv>
    ''Solving for Compounding Frequency (n) directly is mathematically complex and not supported by this calculator. Consider testing different 'n' values by solving for 'A'.''"

text \<open>
  A number that is \<open>+Infinity\<close> or finite and at least \<open>c\<close>.
\<close>

definition at_least :: "real \<Rightarrow> jsnum \<Rightarrow> bool" where
  "at_least c v = (v = PInf \<or> (\<exists>y. v = Fin y \<and> c \<le> y))"

section \<open>Facts about rounding\<close>

lemma floor_log2_eqI:
  assumes "2 powi k \<le> y" and "y < 2 powi (k + 1)"
  shows "\<lfloor>log 2 y\<rfloor> = k"
proof -
  have pos: "0 < y" using assms(1) zero_less_power_int [of "2::real" k] by linarith
  show ?thesis
    using floor_log_eq_powr_iff [of y 2 k] pos assms
      powr_real_of_int' [of 2 k] powr_real_of_int' [of 2 "k + 1"]
    by auto
qed

lemma ilog2_floor_log:
  assumes "0 < y"
  shows "ilog2 y = \<lfloor>log 2 y\<rfloor>"
proof (cases "1 \<le> y")
  case True
  define a where "a = \<lfloor>y\<rfloor>"
  define b where "b = bitlen a"
  have a: "0 < a" using True by (simp add: a_def)
  from bitlen_bounds [OF a] have lo: "2 ^ nat (b - 1) \<le> a" and hi: "a < 2 ^ nat b"
    by (simp_all add: b_def)
  have b: "1 \<le> b" using a bitlen_le_iff_power [of a 0] by (simp add: b_def)
  have "real_of_int (2 ^ nat (b - 1)) \<le> of_int a" using lo by (simp only: of_int_le_iff)
  also have "\<dots> \<le> y" by (simp add: a_def)
  finally have 1: "2 powi (b - 1) \<le> y" using b by (simp add: power_int_def)
  have "y < of_int (2 ^ nat b)" using hi unfolding a_def by (simp only: floor_less_iff)
  then have 2: "y < 2 powi ((b - 1) + 1)" using b by (simp add: power_int_def)
  from floor_log2_eqI [OF 1 2] True show ?thesis
    by (simp add: ilog2_def a_def b_def)
next
  case False
  define w where "w = 1 / y"
  define c where "c = \<lceil>w\<rceil> - 1"
  define b where "b = bitlen c"
  have w: "1 < w" using False assms by (simp add: w_def)
  then have "1 < \<lceil>w\<rceil>" by (simp add: less_ceiling_iff)
  then have c: "0 < c" by (simp add: c_def)
  from bitlen_bounds [OF c] have lo: "2 ^ nat (b - 1) \<le> c" and hi: "c < 2 ^ nat b"
    by (simp_all add: b_def)
  have b: "1 \<le> b" using c bitlen_le_iff_power [of c 0] by (simp add: b_def)
  have "\<lceil>w\<rceil> \<le> 2 ^ nat b" using hi by (simp add: c_def)
  then have "w \<le> of_int (2 ^ nat b)" by (simp only: ceiling_le_iff)
  then have "1 / y \<le> 2 ^ nat b" by (simp add: w_def)
  then have "1 / 2 ^ nat b \<le> y" using assms by (simp add: field_simps)
  then have 1: "2 powi (- b) \<le> y" using b by (simp add: power_int_def field_simps)
  have "2 ^ nat (b - 1) < \<lceil>w\<rceil>" using lo by (simp add: c_def)
  then have "of_int (2 ^ nat (b - 1)) < w" by (simp only: less_ceiling_iff)
  then have "2 ^ nat (b - 1) < 1 / y" by (simp add: w_def)
  then have "y < 1 / 2 ^ nat (b - 1)" using assms by (simp add: field_simps)
  moreover have "(2::real) powi (- b + 1) = 1 / 2 ^ nat (b - 1)"
  proof -
    have "(2::real) powi (- (b - 1)) = inverse (2 powi (b - 1))"
      by (rule power_int_minus)
    also have "(2::real) powi (b - 1) = 2 ^ nat (b - 1)"
      using b by (intro power_int_nonneg_exp) simp
    finally show ?thesis by (simp add: inverse_eq_divide)
  qed
  ultimately have 2: "y < 2 powi (- b + 1)" by simp
  from floor_log2_eqI [OF 1 2] False show ?thesis
    by (simp add: ilog2_def w_def c_def b_def)
qed

lemma binade_log: "x \<noteq> 0 \<Longrightarrow> binade x = max \<lfloor>log 2 \<bar>x\<bar>\<rfloor> (- 1022)"
  by (simp add: binade_def ilog2_floor_log)

lemma rne_ge_floor: "\<lfloor>q\<rfloor> \<le> rne q"
  by (simp add: rne_def Let_def)

lemma rne_error: "\<bar>of_int (rne q) - q\<bar> \<le> 1 / 2"
  unfolding rne_def Let_def by (auto simp: abs_le_iff)

lemma rne_of_int: "rne (of_int k) = k"
  by (simp add: rne_def Let_def)

lemma rne_lower: "of_int k \<le> q \<Longrightarrow> k \<le> rne q"
  using rne_ge_floor [of q] by (meson le_floor_iff order_trans)

lemma ulp_pos: "0 < ulp x"
  by (simp add: ulp_def)

lemma binade_ge: "- 1022 \<le> binade x"
  by (simp add: binade_def)

lemma floor_log2_bounds:
  assumes "0 < y"
  shows "2 powi \<lfloor>log 2 y\<rfloor> \<le> y" and "y < 2 powi (\<lfloor>log 2 y\<rfloor> + 1)"
proof -
  have "2 powr real_of_int \<lfloor>log 2 y\<rfloor> \<le> y \<and> y < 2 powr real_of_int (\<lfloor>log 2 y\<rfloor> + 1)"
    using floor_log_eq_powr_iff [of y 2 "\<lfloor>log 2 y\<rfloor>"] assms by simp
  then show "2 powi \<lfloor>log 2 y\<rfloor> \<le> y" and "y < 2 powi (\<lfloor>log 2 y\<rfloor> + 1)"
    using powr_real_of_int' [of 2 "\<lfloor>log 2 y\<rfloor>"] powr_real_of_int' [of 2 "\<lfloor>log 2 y\<rfloor> + 1"]
    by auto
qed

lemma powi_le_binade:
  assumes "2 powi (- 1022) \<le> \<bar>x\<bar>"
  shows "2 powi binade x \<le> \<bar>x\<bar>"
proof -
  have pos: "0 < \<bar>x\<bar>"
    using assms zero_less_power_int [of "2::real" "- 1022"] by linarith
  have "\<not> \<lfloor>log 2 \<bar>x\<bar>\<rfloor> < - 1022"
  proof
    assume "\<lfloor>log 2 \<bar>x\<bar>\<rfloor> < - 1022"
    then have "\<lfloor>log 2 \<bar>x\<bar>\<rfloor> + 1 \<le> - 1022" by linarith
    then have "(2::real) powi (\<lfloor>log 2 \<bar>x\<bar>\<rfloor> + 1) \<le> 2 powi (- 1022)"
      by (intro power_int_increasing) simp_all
    with floor_log2_bounds(2) [OF pos] assms show False by linarith
  qed
  then have "binade x = \<lfloor>log 2 \<bar>x\<bar>\<rfloor>"
    using pos by (simp add: binade_log)
  with floor_log2_bounds(1) [OF pos] show ?thesis by simp
qed

lemma binade_upper:
  assumes "x \<noteq> 0"
  shows "\<bar>x\<bar> < 2 powi (binade x + 1)"
proof -
  have pos: "0 < \<bar>x\<bar>" using assms by simp
  have "\<lfloor>log 2 \<bar>x\<bar>\<rfloor> + 1 \<le> binade x + 1"
    using assms by (simp add: binade_log)
  then have "(2::real) powi (\<lfloor>log 2 \<bar>x\<bar>\<rfloor> + 1) \<le> 2 powi (binade x + 1)"
    by (intro power_int_increasing) simp_all
  with floor_log2_bounds(2) [OF pos] show ?thesis by linarith
qed

lemma round64_error: "\<bar>round64 x - x\<bar> \<le> ulp x / 2"
proof -
  have "round64 x - x = (of_int (rne (x / ulp x)) - x / ulp x) * ulp x"
    using ulp_pos [of x] by (simp add: round64_def field_simps)
  then have "\<bar>round64 x - x\<bar> = \<bar>of_int (rne (x / ulp x)) - x / ulp x\<bar> * ulp x"
    using ulp_pos [of x] by (simp add: abs_mult)
  also have "\<dots> \<le> (1 / 2) * ulp x"
    using rne_error [of "x / ulp x"] ulp_pos [of x] by (intro mult_right_mono) simp_all
  finally show ?thesis by simp
qed

lemma round64_nonneg: "0 \<le> x \<Longrightarrow> 0 \<le> round64 x"
proof -
  assume "0 \<le> x"
  then have "0 \<le> x / ulp x" using ulp_pos [of x] by simp
  then have "0 \<le> rne (x / ulp x)" using rne_lower [of 0 "x / ulp x"] by simp
  then show ?thesis using ulp_pos [of x] by (simp add: round64_def)
qed

lemma round64_ge_binade:
  assumes "2 powi (- 1022) \<le> x"
  shows "2 powi binade x \<le> round64 x"
proof -
  have "0 < (2::real) powi (- 1022)" by simp
  with assms have "\<bar>x\<bar> = x" by linarith
  with powi_le_binade [of x] assms have x: "2 powi binade x \<le> x" by simp
  have "2 powi binade x / ulp x = (2::real) powi 52"
    by (simp add: ulp_def power_int_diff)
  then have "of_int (2 ^ 52) \<le> x / ulp x"
    using x ulp_pos [of x] divide_right_mono [of "2 powi binade x" x "ulp x"] by simp
  then have "2 ^ 52 \<le> rne (x / ulp x)" by (rule rne_lower)
  then have "(2::real) ^ 52 \<le> of_int (rne (x / ulp x))"
    by (metis of_int_le_iff of_int_numeral of_int_power)
  then have "2 ^ 52 * ulp x \<le> round64 x"
    using ulp_pos [of x] by (simp add: round64_def)
  moreover have "2 ^ 52 * ulp x = 2 powi binade x"
    by (simp add: ulp_def power_int_diff)
  ultimately show ?thesis by simp
qed

lemma round64_ge_1:
  assumes "1 \<le> x"
  shows "1 \<le> round64 x"
proof -
  have "(2::real) powi (- 1022) \<le> 1"
    using power_int_increasing [of "- 1022" 0 "2::real"] by simp
  with assms have low: "2 powi (- 1022) \<le> x" by linarith
  have "0 \<le> log 2 \<bar>x\<bar>" using assms by simp
  then have "0 \<le> \<lfloor>log 2 \<bar>x\<bar>\<rfloor>" by simp
  moreover have "binade x = max \<lfloor>log 2 \<bar>x\<bar>\<rfloor> (- 1022)"
    using assms by (intro binade_log) simp
  ultimately have "0 \<le> binade x" by linarith
  then have "(1::real) \<le> 2 powi binade x"
    using power_int_increasing [of 0 "binade x" "2::real"] by simp
  with round64_ge_binade [OF low] show ?thesis by linarith
qed

lemma rne_unique:
  assumes "\<bar>q - of_int k\<bar> < 1 / 2"
  shows "rne q = k"
proof (cases "of_int k \<le> q")
  case True
  with assms have "\<lfloor>q\<rfloor> = k" by (intro floor_unique) linarith+
  moreover from assms True have "q - of_int k < 1 / 2" by linarith
  ultimately show ?thesis by (simp add: rne_def Let_def)
next
  case False
  have k: "real_of_int (k - 1) = of_int k - 1" by simp
  from assms False k have f: "\<lfloor>q\<rfloor> = k - 1" by (intro floor_unique) linarith+
  from assms False k have "1 / 2 < q - of_int (k - 1)" by linarith
  with f show ?thesis by (simp add: rne_def Let_def)
qed

lemma binade_eq:
  assumes "2 powi k \<le> \<bar>x\<bar>" and "\<bar>x\<bar> < 2 powi (k + 1)" and "- 1022 \<le> k"
  shows "binade x = k"
proof -
  have pos: "0 < \<bar>x\<bar>"
    using assms(1) zero_less_power_int [of "2::real" k] by linarith
  have "\<lfloor>log 2 \<bar>x\<bar>\<rfloor> = k"
    using floor_log_eq_powr_iff [of "\<bar>x\<bar>" 2 k] pos assms(1,2)
      powr_real_of_int' [of 2 k] powr_real_of_int' [of 2 "k + 1"]
    by auto
  with assms(3) pos show ?thesis by (simp add: binade_log)
qed

lemma binade_tiny:
  assumes "\<bar>x\<bar> < 2 powi (- 1022)" and "x \<noteq> 0"
  shows "binade x = - 1022"
proof -
  from assms(2) have pos: "0 < \<bar>x\<bar>" by simp
  have "\<not> - 1022 \<le> \<lfloor>log 2 \<bar>x\<bar>\<rfloor>"
  proof
    assume "- 1022 \<le> \<lfloor>log 2 \<bar>x\<bar>\<rfloor>"
    then have "(2::real) powi (- 1022) \<le> 2 powi \<lfloor>log 2 \<bar>x\<bar>\<rfloor>"
      by (intro power_int_increasing) simp_all
    with floor_log2_bounds(1) [OF pos] assms show False by linarith
  qed
  then show ?thesis using assms(2) by (simp add: binade_log)
qed

lemma round64_0: "round64 0 = 0"
  by (simp add: round64_def rne_def)

lemma round64_tiny:
  assumes "\<bar>x\<bar> < 2 powi (- 1075)"
  shows "round64 x = 0"
proof (cases "x = 0")
  case True
  then show ?thesis by (simp add: round64_0)
next
  case False
  have "(2::real) powi (- 1075) \<le> 2 powi (- 1022)"
    by (intro power_int_increasing) simp_all
  with assms False have "binade x = - 1022" by (intro binade_tiny) linarith+
  then have u: "ulp x = 2 powi (- 1074)" by (simp add: ulp_def)
  have "(2::real) powi (- 1075) = 2 powi (- 1074) / 2"
    using power_int_add_1 [of "2::real" "- 1075"] by simp
  with assms have "\<bar>x / ulp x\<bar> < 1 / 2"
    by (simp add: u abs_divide field_simps del: power_int_minus)
  then have "rne (x / ulp x) = 0"
    using rne_unique [of "x / ulp x" 0] by simp
  then show ?thesis by (simp add: round64_def)
qed

lemma round64_exact:
  assumes "x = of_int m * 2 powi e" and "\<bar>m\<bar> < 2 ^ 53" and "- 1074 \<le> e"
  shows "round64 x = x"
proof (cases "m = 0")
  case True
  with assms(1) show ?thesis by (simp add: round64_def rne_def)
next
  case False
  define b where "b = binade x"
  have u: "ulp x = 2 powi (b - 52)" by (simp add: ulp_def b_def)
  have pos: "0 < \<bar>x\<bar>" using \<open>m \<noteq> 0\<close> assms(1) by simp
  have le: "b - 52 \<le> e"
  proof (cases "\<lfloor>log 2 \<bar>x\<bar>\<rfloor> \<le> - 1022")
    case True
    then have "b = - 1022" using pos by (simp add: binade_log b_def)
    with assms(3) show ?thesis by simp
  next
    case False
    then have b: "b = \<lfloor>log 2 \<bar>x\<bar>\<rfloor>" using pos by (simp add: binade_log b_def)
    have m: "real_of_int \<bar>m\<bar> < 2 ^ 53"
      using assms(2) by (metis of_int_less_iff of_int_numeral of_int_power)
    have "\<bar>x\<bar> = of_int \<bar>m\<bar> * 2 powi e"
      by (simp add: assms(1) abs_mult)
    also from m have "\<dots> < 2 ^ 53 * (2::real) powi e"
      by (intro mult_strict_right_mono) simp_all
    also have "\<dots> = 2 powi (53 + e)"
      by (simp add: power_int_add)
    finally have "\<bar>x\<bar> < 2 powi (53 + e)" .
    with floor_log2_bounds(1) [OF pos] b have lt: "2 powi b < (2::real) powi (53 + e)"
      by simp
    have "\<not> 53 + e \<le> b"
    proof
      assume "53 + e \<le> b"
      then have "(2::real) powi (53 + e) \<le> 2 powi b"
        by (intro power_int_increasing) simp_all
      with lt show False by linarith
    qed
    then show ?thesis by simp
  qed
  define j where "j = nat (e - (b - 52))"
  have "e = (b - 52) + int j" using le by (simp add: j_def)
  then have "(2::real) powi e = 2 powi ((b - 52) + int j)" by simp
  also have "\<dots> = 2 powi (b - 52) * 2 ^ j"
    using power_int_add [of "2::real" "b - 52" "int j"] by simp
  finally have e: "(2::real) powi e = 2 powi (b - 52) * 2 ^ j" .
  have "x / 2 powi (b - 52) = of_int (m * 2 ^ j)"
    by (simp add: assms(1) e)
  then have q: "x / ulp x = of_int (m * 2 ^ j)"
    by (simp only: u)
  have "rne (x / ulp x) = m * 2 ^ j"
    by (simp only: q rne_of_int)
  then have "round64 x = of_int (m * 2 ^ j) * 2 powi (b - 52)"
    by (simp only: round64_def u)
  also have "\<dots> = x"
    by (simp add: assms(1) e)
  finally show ?thesis .
qed

lemma fl_exact:
  assumes "x = of_int m * 2 powi e" and "\<bar>m\<bar> < 2 ^ 53" and "- 1074 \<le> e"
    and "x \<noteq> 0" and "\<bar>x\<bar> < 2 ^ 1024"
  shows "fl s x = Fin x"
proof -
  from assms(5) have "\<not> 2 ^ 1024 \<le> x" and "\<not> x \<le> - (2 ^ 1024)"
    by linarith+
  with round64_exact [OF assms(1-3)] assms(4) show ?thesis
    by (simp only: fl_def Let_def if_False)
qed

lemma fl_1: "fl s 1 = Fin 1"
  using fl_exact [of 1 1 0 s] by simp

lemma fl_2: "fl s 2 = Fin 2"
  using fl_exact [of 2 2 0 s] by simp

lemma fl_2000: "fl s 2000 = Fin 2000"
  using fl_exact [of 2000 2000 0 s] by simp

lemma fl_2_1020: "fl s (2 ^ 1020) = Fin (2 ^ 1020)"
  using fl_exact [of "2 ^ 1020" 1 1020 s] by simp

lemma fl_overflow_100: "fl s (2 ^ 1020 * 100) = PInf"
proof -
  have "round64 (2 ^ 1020 * 100) = 2 ^ 1020 * 100"
    using round64_exact [of "2 ^ 1020 * 100" 100 1020] by simp
  then show ?thesis by (simp add: fl_def)
qed

lemma fl_overflow_2000: "fl s (2 ^ 2000) = PInf"
proof -
  have "round64 (2 ^ 2000) = 2 ^ 2000"
    using round64_exact [of "2 ^ 2000" 1 2000] by simp
  then show ?thesis by (simp add: fl_def)
qed

lemma round64_below_2_1020: "round64 (2 ^ 1020 - 1) = 2 ^ 1020"
proof -
  have b: "binade (2 ^ 1020 - 1) = 1019"
    by (rule binade_eq) simp_all
  then have u: "ulp (2 ^ 1020 - 1) = 2 ^ 967"
    by (simp add: ulp_def)
  have "rne ((2 ^ 1020 - 1) / 2 ^ 967) = 2 ^ 53"
    by (rule rne_unique) (simp add: field_simps)
  then have "rne ((2 ^ 1020 - 1) / ulp (2 ^ 1020 - 1)) = 2 ^ 53"
    by (simp only: u)
  then have "round64 (2 ^ 1020 - 1) = of_int (2 ^ 53) * 2 ^ 967"
    by (simp only: round64_def u)
  then show ?thesis by simp
qed

lemma fl_below_2_1020: "fl s (2 ^ 1020 - 1) = Fin (2 ^ 1020)"
  using round64_below_2_1020 by (simp add: fl_def)

lemma fl_underflow: "fl False (2 powi (- 1074) / 4) = Fin 0"
proof -
  have "(2::real) powi (- 1074) / 4 < 2 powi (- 1075)"
    by simp
  then have "round64 (2 powi (- 1074) / 4) = 0"
    by (intro round64_tiny) simp
  then show ?thesis by (simp add: fl_def)
qed

lemma rne_le_floor_Suc: "rne q \<le> \<lfloor>q\<rfloor> + 1"
  by (simp add: rne_def Let_def)

lemma rne_upper: "q \<le> of_int k \<Longrightarrow> rne q \<le> k"
proof -
  assume q: "q \<le> of_int k"
  show ?thesis
  proof (cases "q = of_int k")
    case True
    then show ?thesis by (simp add: rne_of_int)
  next
    case False
    with q have "q < of_int k" by simp
    then have "\<lfloor>q\<rfloor> < k" by (simp add: floor_less_iff)
    with rne_le_floor_Suc [of q] show ?thesis by linarith
  qed
qed

lemma rne_mono:
  assumes "q \<le> r"
  shows "rne q \<le> rne r"
proof (cases "\<lfloor>q\<rfloor> = \<lfloor>r\<rfloor>")
  case True
  with assms have "q - of_int \<lfloor>q\<rfloor> \<le> r - of_int \<lfloor>r\<rfloor>" by simp
  with True show ?thesis
    by (auto simp add: rne_def Let_def)
next
  case False
  with assms have "\<lfloor>q\<rfloor> < \<lfloor>r\<rfloor>"
    using floor_mono [OF assms] by linarith
  with rne_le_floor_Suc [of q] rne_ge_floor [of r] show ?thesis by linarith
qed

lemma binade_mono:
  assumes "0 < x" and "x \<le> y"
  shows "binade x \<le> binade y"
proof -
  have "log 2 \<bar>x\<bar> \<le> log 2 \<bar>y\<bar>" using assms by simp
  then have "\<lfloor>log 2 \<bar>x\<bar>\<rfloor> \<le> \<lfloor>log 2 \<bar>y\<bar>\<rfloor>" by (rule floor_mono)
  then show ?thesis using assms by (simp add: binade_log)
qed

lemma ulp_times_2_53: "2 ^ 53 * ulp x = 2 powi (binade x + 1)"
  by (simp add: ulp_def power_int_diff power_int_add)

lemma ulp_half: "ulp x / 2 = 2 powi binade x * 2 powi (- 53)"
  by (simp add: ulp_def power_int_diff power_int_minus field_simps)

lemma round64_le_next_binade:
  assumes "0 < x"
  shows "round64 x \<le> 2 powi (binade x + 1)"
proof -
  have "x < 2 powi (binade x + 1)" using binade_upper [of x] assms by simp
  also have "\<dots> = 2 ^ 53 * ulp x"
    by (simp only: ulp_times_2_53)
  finally have "x / ulp x \<le> of_int (2 ^ 53)"
    using ulp_pos [of x] by (simp add: field_simps)
  then have "rne (x / ulp x) \<le> 2 ^ 53" by (rule rne_upper)
  then have "real_of_int (rne (x / ulp x)) \<le> 2 ^ 53"
    by (metis of_int_le_iff of_int_numeral of_int_power)
  then have "round64 x \<le> 2 ^ 53 * ulp x"
    using ulp_pos [of x] by (simp add: round64_def)
  also have "\<dots> = 2 powi (binade x + 1)"
    by (rule ulp_times_2_53)
  finally show ?thesis .
qed

lemma round64_mono:
  assumes "0 < x" and "x \<le> y"
  shows "round64 x \<le> round64 y"
proof (cases "binade x = binade y")
  case True
  then have u: "ulp x = ulp y" by (simp add: ulp_def)
  have "x / ulp y \<le> y / ulp y"
    using assms(2) ulp_pos [of y] by (simp add: divide_right_mono)
  then have "rne (x / ulp y) \<le> rne (y / ulp y)" by (rule rne_mono)
  then show ?thesis
    using ulp_pos [of y] by (simp add: round64_def u)
next
  case False
  with binade_mono [OF assms] have lt: "binade x + 1 \<le> binade y" by simp
  with binade_ge [of x] have "- 1021 \<le> binade y" by linarith
  moreover have "binade y = max \<lfloor>log 2 \<bar>y\<bar>\<rfloor> (- 1022)"
    using assms by (intro binade_log) simp
  ultimately have "\<lfloor>log 2 \<bar>y\<bar>\<rfloor> = binade y"
    by linarith
  with floor_log2_bounds(1) [of "\<bar>y\<bar>"] assms have y: "2 powi binade y \<le> y" by simp
  have "(2::real) powi (- 1022) \<le> 2 powi binade y"
    using binade_ge [of y] by (intro power_int_increasing) simp_all
  with y have "2 powi (- 1022) \<le> y" by linarith
  then have "2 powi binade y \<le> round64 y" by (rule round64_ge_binade)
  moreover have "(2::real) powi (binade x + 1) \<le> 2 powi binade y"
    using lt by (intro power_int_increasing) simp_all
  ultimately show ?thesis using round64_le_next_binade [OF assms(1)] by linarith
qed

lemma round64_idem_pos:
  assumes "0 < x"
  shows "round64 (round64 x) = round64 x"
proof -
  define k where "k = rne (x / ulp x)"
  define b where "b = binade x"
  have a: "round64 x = of_int k * 2 powi (b - 52)"
    by (simp add: round64_def k_def b_def ulp_def)
  have "0 \<le> x / ulp x" using assms ulp_pos [of x] by simp
  then have k0: "0 \<le> k" unfolding k_def using rne_lower [of 0 "x / ulp x"] by simp
  have "x < 2 powi (binade x + 1)" using binade_upper [of x] assms by simp
  also have "\<dots> = 2 ^ 53 * ulp x"
    by (simp only: ulp_times_2_53)
  finally have "x / ulp x \<le> of_int (2 ^ 53)"
    using ulp_pos [of x] by (simp add: field_simps)
  then have k53: "k \<le> 2 ^ 53" unfolding k_def by (rule rne_upper)
  have b: "- 1074 \<le> b - 52" using binade_ge [of x] by (simp add: b_def)
  show ?thesis
  proof (cases "k = 2 ^ 53")
    case True
    then have "round64 x = of_int 1 * 2 powi (b + 1)"
      using ulp_times_2_53 [of x] by (simp add: a b_def ulp_def)
    moreover have "- 1074 \<le> b + 1" using b by simp
    ultimately show ?thesis by (intro round64_exact [of _ 1 "b + 1"]) simp_all
  next
    case False
    with k0 k53 have "\<bar>k\<bar> < 2 ^ 53" by simp
    with a b show ?thesis by (intro round64_exact [of _ k "b - 52"])
  qed
qed

lemma round64_relative:
  assumes "2 powi (- 1022) \<le> \<bar>x\<bar>"
  shows "\<bar>round64 x - x\<bar> \<le> \<bar>x\<bar> * 2 powi (- 53)"
proof -
  have "ulp x / 2 = 2 powi binade x * 2 powi (- 53)"
    by (rule ulp_half)
  also have "\<dots> \<le> \<bar>x\<bar> * 2 powi (- 53)"
    using powi_le_binade [OF assms] by (intro mult_right_mono) simp_all
  finally show ?thesis using round64_error [of x] by linarith
qed

lemma ulp_tiny:
  assumes "\<bar>x\<bar> < 2 powi (- 1021)" and "x \<noteq> 0"
  shows "ulp x = 2 powi (- 1074)"
proof -
  have pos: "0 < \<bar>x\<bar>" using assms(2) by simp
  have "\<not> - 1021 \<le> \<lfloor>log 2 \<bar>x\<bar>\<rfloor>"
  proof
    assume "- 1021 \<le> \<lfloor>log 2 \<bar>x\<bar>\<rfloor>"
    then have "(2::real) powi (- 1021) \<le> 2 powi \<lfloor>log 2 \<bar>x\<bar>\<rfloor>"
      by (intro power_int_increasing) simp_all
    with floor_log2_bounds(1) [OF pos] assms(1) show False by linarith
  qed
  then have "binade x = - 1022" using assms(2) by (simp add: binade_log)
  then show ?thesis by (simp add: ulp_def)
qed

lemma round64_error_tiny:
  assumes "\<bar>x\<bar> < 2 powi (- 1021)"
  shows "\<bar>round64 x - x\<bar> \<le> 2 powi (- 1075)"
proof (cases "x = 0")
  case True
  then show ?thesis by (simp add: round64_0)
next
  case False
  have "(2::real) powi (- 1074) / 2 = 2 powi (- 1075)"
    by (simp add: power_int_minus)
  with round64_error [of x] ulp_tiny [OF assms False] show ?thesis by simp
qed

lemma rne_on_grid:
  fixes u :: real
  assumes "0 < u" and "\<bar>z - of_int k * u\<bar> < u / 2"
  shows "rne (z / u) = k"
proof -
  have "z / u - of_int k = (z - of_int k * u) / u"
    using assms(1) by (simp add: field_simps)
  then have "\<bar>z / u - of_int k\<bar> = \<bar>z - of_int k * u\<bar> / u"
    using assms(1) by (simp add: abs_divide)
  also have "\<dots> < (u / 2) / u"
    using assms by (intro divide_strict_right_mono) simp_all
  also have "\<dots> = 1 / 2" using assms(1) by simp
  finally show ?thesis by (rule rne_unique)
qed

lemma round64_on_grid:
  assumes "0 < z" and "z < 2 powi (- 1021)"
    and "\<bar>z - of_int k * 2 powi (- 1074)\<bar> < 2 powi (- 1074) / 2"
  shows "round64 z = of_int k * 2 powi (- 1074)"
proof -
  have u: "ulp z = 2 powi (- 1074)" using assms(1,2) by (intro ulp_tiny) simp_all
  have "rne (z / 2 powi (- 1074)) = k"
    using assms(3) by (intro rne_on_grid) simp_all
  then show ?thesis by (simp only: round64_def u)
qed

lemma roundtrip_no_overflow:
  assumes "0 < x" and "1 \<le> g" and "0 < round64 x"
  shows "round64 (round64 x / g) \<le> round64 x"
proof -
  have "round64 x / g \<le> round64 x" using assms(2,3) by (simp add: field_simps)
  moreover have "0 < round64 x / g" using assms(2,3) by simp
  ultimately have "round64 (round64 x / g) \<le> round64 (round64 x)" by (intro round64_mono)
  with round64_idem_pos [OF assms(1)] show ?thesis by simp
qed

lemma roundtrip_normal:
  fixes p g :: real
  assumes p: "2 powi (- 1022) \<le> p" and g: "1 \<le> g"
  shows "0 < round64 (p * g)"
    and "0 < round64 (round64 (p * g) / g)"
    and "\<bar>round64 (round64 (p * g) / g) - p\<bar> \<le> p * 2 powi (- 51)"
proof -
  define e :: real where "e = 2 powi (- 53)"
  define lo :: real where "lo = 2 powi (- 1022)"
  define x where "x = p * g"
  define a where "a = round64 x"
  define z where "z = a / g"
  have e: "0 < e" "e \<le> 1 / 2" "4 * e = 2 powi (- 51)" "e \<le> 1 / 4"
    by (simp_all add: e_def power_int_minus field_simps)
  have lo: "0 < lo" "2 powi (- 1021) = 2 * lo" "2 powi (- 1075) = lo * e"
    by (simp_all add: lo_def e_def power_int_minus)
  have plo: "lo \<le> p" using p by (simp add: lo_def)
  have ppos: "0 < p" using plo lo by linarith
  have "p * 1 \<le> p * g" using g ppos by (intro mult_left_mono) simp_all
  then have xp: "p \<le> x" by (simp add: x_def)
  then have xlow: "2 powi (- 1022) \<le> \<bar>x\<bar>" using plo lo by (simp add: lo_def)
  have xpos: "0 < x" using xp ppos by linarith
  have ax: "\<bar>a - x\<bar> \<le> x * e"
    using round64_relative [OF xlow] xpos by (simp add: a_def e_def)
  have "x * e \<le> x * (1 / 2)" using e xpos by (intro mult_left_mono) simp_all
  with ax xpos have apos: "0 < a" by linarith
  have "z - p = (a - x) / g" using g by (simp add: z_def x_def field_simps)
  then have "\<bar>z - p\<bar> = \<bar>a - x\<bar> / g" using g by (simp add: abs_divide)
  also have "\<dots> \<le> (x * e) / g" using ax g by (intro divide_right_mono) simp_all
  also have "\<dots> = p * e" using g by (simp add: x_def)
  finally have zp: "\<bar>z - p\<bar> \<le> p * e" .
  have pe: "p * e \<le> p * (1 / 2)" using e ppos by (intro mult_left_mono) simp_all
  have loe: "lo * e \<le> p * e" using plo e by (intro mult_right_mono) simp_all
  have loe2: "lo * e \<le> lo * (1 / 4)" using lo e by (intro mult_left_mono) simp_all
  have pepos: "0 < p * e" using ppos e by simp
  from zp pe have zlow: "p / 2 \<le> z" and zhigh: "z \<le> 2 * p" using ppos by linarith+
  have zpos: "0 < z" using zlow ppos by linarith
  have ze: "z * e \<le> (2 * p) * e" using zhigh e by (intro mult_right_mono) simp_all
  have rz: "\<bar>round64 z - z\<bar> \<le> 2 * p * e \<and> 0 < round64 z"
  proof (cases "lo \<le> z")
    case True
    then have zl: "2 powi (- 1022) \<le> \<bar>z\<bar>" using zpos by (simp add: lo_def)
    have "\<bar>round64 z - z\<bar> \<le> z * e"
      using round64_relative [OF zl] zpos by (simp add: e_def)
    moreover have "2 powi binade z \<le> round64 z"
      using zl zpos by (intro round64_ge_binade) simp
    moreover have "0 < (2::real) powi binade z" by simp
    ultimately show ?thesis using ze by linarith
  next
    case False
    then have "\<bar>z\<bar> < 2 powi (- 1021)" using zpos lo by simp
    then have "\<bar>round64 z - z\<bar> \<le> lo * e"
      using round64_error_tiny [of z] lo by simp
    moreover have "lo / 2 \<le> z" using zlow plo by linarith
    ultimately show ?thesis using loe loe2 lo pepos
      by (simp add: abs_le_iff)
  qed
  then have rz1: "\<bar>round64 z - z\<bar> \<le> 2 * p * e" and rpos: "0 < round64 z"
    by simp_all
  from zp rz1 have "\<bar>round64 z - p\<bar> \<le> p * (3 * e)" by (simp add: algebra_simps)
  also have "\<dots> \<le> p * (4 * e)" using e ppos by (intro mult_left_mono) simp_all
  finally have err: "\<bar>round64 z - p\<bar> \<le> p * 2 powi (- 51)" by (simp only: e)
  from apos rpos err
  show "0 < round64 (p * g)"
    and "0 < round64 (round64 (p * g) / g)"
    and "\<bar>round64 (round64 (p * g) / g) - p\<bar> \<le> p * 2 powi (- 51)"
    by (simp_all only: a_def x_def z_def)
qed

lemma roundtrip_subnormal:
  fixes p g :: real
  assumes p: "0 < p" "p < 2 powi (- 1022)" and rep: "round64 p = p" and g: "1 \<le> g"
  shows "0 < round64 (p * g)"
    and "round64 (round64 (p * g) / g) = p"
proof -
  define e :: real where "e = 2 powi (- 53)"
  define lo :: real where "lo = 2 powi (- 1022)"
  define h :: real where "h = 2 powi (- 1074)"
  define x where "x = p * g"
  define a where "a = round64 x"
  define z where "z = a / g"
  define k where "k = rne (p / ulp p)"
  have e: "0 < e"
    by (simp add: e_def)
  have lo: "0 < lo" "2 powi (- 1021) = 2 * lo" "2 powi (- 1075) = lo * e" "lo * e = h / 2"
    "0 < h" "h \<le> lo"
    by (simp_all add: lo_def e_def h_def power_int_minus)
  have plo: "p < lo" using p by (simp add: lo_def)
  have "ulp p = h"
    unfolding h_def using p lo plo by (intro ulp_tiny) (simp_all add: lo_def)
  with rep have pk: "p = of_int k * h" by (simp add: round64_def k_def)
  have "0 < k"
  proof (rule ccontr)
    assume "\<not> 0 < k"
    then have "real_of_int k \<le> 0" by simp
    then have "of_int k * h \<le> 0" using lo by (simp add: mult_le_0_iff)
    with pk p show False by simp
  qed
  then have "1 \<le> real_of_int k" by simp
  then have "1 * h \<le> of_int k * h" using lo by (intro mult_right_mono) simp_all
  then have ph: "h \<le> p" using pk by simp
  have "z = p \<and> 0 < a \<or> \<bar>z - p\<bar> < h / 2 \<and> 0 < a"
  proof (cases "g = 1")
    case True
    then show ?thesis using rep p by (simp add: z_def a_def x_def)
  next
    case False
    with g have g1: "1 < g" by simp
    have "p * 1 \<le> p * g" using g p by (intro mult_left_mono) simp_all
    then have xp: "p \<le> x" by (simp add: x_def)
    then have xpos: "0 < x" using p by linarith
    have zp: "\<bar>z - p\<bar> = \<bar>a - x\<bar> / g"
    proof -
      have "z - p = (a - x) / g" using g by (simp add: z_def x_def field_simps)
      then show ?thesis using g by (simp add: abs_divide)
    qed
    have small: "\<bar>z - p\<bar> < h / 2"
    proof (cases "lo \<le> x")
      case True
      then have "2 powi (- 1022) \<le> \<bar>x\<bar>" using xpos by (simp add: lo_def)
      then have "\<bar>a - x\<bar> \<le> x * e"
        using round64_relative [of x] xpos by (simp add: a_def e_def)
      then have "\<bar>a - x\<bar> / g \<le> (x * e) / g" using g by (intro divide_right_mono) simp_all
      also have "\<dots> = p * e" using g by (simp add: x_def)
      also have "\<dots> < lo * e" using plo e by (intro mult_strict_right_mono) simp_all
      finally show ?thesis using zp lo by simp
    next
      case False
      then have "\<bar>x\<bar> < 2 powi (- 1021)" using xpos lo by simp
      then have "\<bar>a - x\<bar> \<le> h / 2"
        using round64_error_tiny [of x] lo by (simp add: a_def)
      then have "\<bar>a - x\<bar> / g \<le> (h / 2) / g" using g by (intro divide_right_mono) simp_all
      also have "\<dots> < h / 2" using g1 lo by (simp add: field_simps)
      finally show ?thesis using zp by simp
    qed
    then have "0 < z" using ph lo by linarith
    then have "0 < a" using g by (simp add: z_def zero_less_divide_iff)
    with small show ?thesis by simp
  qed
  then have apos: "0 < a" and zk: "\<bar>z - of_int k * h\<bar> < h / 2"
    using pk lo by auto
  have zpos: "0 < z" using zk ph pk by linarith
  have "z < 2 powi (- 1021)" using zk pk plo lo by linarith
  with zpos zk have "round64 z = of_int k * h"
    unfolding h_def by (intro round64_on_grid)
  with pk apos show "0 < round64 (p * g)" and "round64 (round64 (p * g) / g) = p"
    by (simp_all only: a_def x_def z_def)
qed

lemma roundtrip_bounds:
  fixes p g :: real
  assumes p: "0 < p" and rep: "round64 p = p" and g: "1 \<le> g"
    and fin: "round64 (p * g) < 2 ^ 1024"
  shows "0 < round64 (p * g)"
    and "0 < round64 (round64 (p * g) / g)"
    and "round64 (round64 (p * g) / g) < 2 ^ 1024"
    and "\<bar>round64 (round64 (p * g) / g) - p\<bar> \<le> p * 2 powi (- 51)"
proof -
  have b: "0 < round64 (p * g) \<and> 0 < round64 (round64 (p * g) / g)
    \<and> \<bar>round64 (round64 (p * g) / g) - p\<bar> \<le> p * 2 powi (- 51)"
  proof (cases "2 powi (- 1022) \<le> p")
    case True
    from roundtrip_normal [OF True g] show ?thesis by simp
  next
    case False
    then have "p < 2 powi (- 1022)" by simp
    from roundtrip_subnormal [OF p this rep g] p show ?thesis by simp
  qed
  have "0 < p * g" using p g by simp
  from roundtrip_no_overflow [OF this g] b fin
  have "round64 (round64 (p * g) / g) < 2 ^ 1024" by linarith
  with b show "0 < round64 (p * g)"
    and "0 < round64 (round64 (p * g) / g)"
    and "round64 (round64 (p * g) / g) < 2 ^ 1024"
    and "\<bar>round64 (round64 (p * g) / g) - p\<bar> \<le> p * 2 powi (- 51)"
    by simp_all
qed

lemma fl_4: "fl s 4 = Fin 4"
  using fl_exact [of 4 4 0 s] by simp

lemma fl_4000: "fl s 4000 = Fin 4000"
  using fl_exact [of 4000 4000 0 s] by simp

lemma sample_growth_2: "fadd (Fin 1) (fdiv (fdiv (Fin 100) (Fin 100)) (Fin 1)) = Fin 2"
  by (simp add: fadd_def fdiv_def fl_1 fl_2)

lemma pow_ref_positive:
  assumes "0 < b" and "e \<noteq> 0"
  shows "pow_ref (Fin b) (Fin e) = fl False (b powr e)"
  using assms by (simp add: pow_ref_def)

lemma pow_ref_2_2000: "pow_ref (Fin 2) (Fin 2000) = PInf"
proof -
  have "pow_ref (Fin 2) (Fin 2000) = fl False (2 powr 2000)"
    by (rule pow_ref_positive) simp_all
  also have "(2::real) powr 2000 = 2 ^ 2000"
    by (rule powr_numeral) simp
  also have "fl False (2 ^ 2000) = PInf"
    by (rule fl_overflow_2000)
  finally show ?thesis .
qed

section \<open>Signs of the quantities the solvers compute\<close>

lemma fl_at_least_0: "0 \<le> x \<Longrightarrow> at_least 0 (fl False x)"
  using round64_nonneg [of x] by (auto simp add: fl_def at_least_def Let_def)

lemma fl_at_least_1: "1 \<le> x \<Longrightarrow> at_least 1 (fl s x)"
  using round64_ge_1 [of x] by (auto simp add: fl_def at_least_def Let_def)

lemma at_least_not_le: "at_least 1 v \<Longrightarrow> \<not> js_le v (Fin 0)"
  by (auto simp add: at_least_def js_le_def)

lemma positive_cases: "js_gt v (Fin 0) \<Longrightarrow> v = PInf \<or> (\<exists>y. v = Fin y \<and> 0 < y)"
  by (cases v) (simp_all add: js_gt_def js_lt_def)

lemma fdiv_100: "js_gt R (Fin 0) \<Longrightarrow> at_least 0 (fdiv R (Fin 100))"
  using fl_at_least_0 [of "mag R / 100"]
  by (auto dest!: positive_cases simp add: fdiv_def inf_signed_def at_least_def)

lemma fdiv_positive:
  assumes "at_least 0 a" and "js_gt n (Fin 0)"
  shows "fdiv a n = NaN \<or> at_least 0 (fdiv a n)"
proof -
  from assms(2) consider "n = PInf" | y where "n = Fin y" "0 < y"
    using positive_cases by blast
  then show ?thesis
  proof cases
    case 1
    with assms(1) show ?thesis
      by (auto simp add: fdiv_def at_least_def zero_signed_def)
  next
    case 2
    from assms(1) consider "a = PInf" | z where "a = Fin z" "0 \<le> z"
      by (auto simp add: at_least_def)
    then show ?thesis
    proof cases
      case 1
      with 2 show ?thesis by (simp add: fdiv_def inf_signed_def at_least_def)
    next
      case 2
      then have "0 \<le> z / y" using \<open>0 < y\<close> by simp
      from fl_at_least_0 [OF this] 2 \<open>n = Fin y\<close> \<open>0 < y\<close> show ?thesis
        by (simp add: fdiv_def)
    qed
  qed
qed

lemma fadd_1:
  assumes "at_least 0 a"
  shows "at_least 1 (fadd (Fin 1) a)"
proof -
  from assms consider "a = PInf" | z where "a = Fin z" "0 \<le> z"
    by (auto simp add: at_least_def)
  then show ?thesis
  proof cases
    case 1
    then show ?thesis by (simp add: fadd_def at_least_def)
  next
    case 2
    with fl_at_least_1 [of "1 + z"] show ?thesis by (simp add: fadd_def)
  qed
qed

lemma growth_base_not_le_0:
  assumes "\<not> js_le R (Fin 0)" and "\<not> js_le n (Fin 0)"
  shows "\<not> js_le (fadd (Fin 1) (fdiv (fdiv R (Fin 100)) n)) (Fin 0)"
proof (cases "isNaN R \<or> isNaN n")
  case True
  then have "fadd (Fin 1) (fdiv (fdiv R (Fin 100)) n) = NaN"
    by (cases R; cases n) (simp_all add: fadd_def fdiv_def)
  then show ?thesis by (simp add: js_le_def)
next
  case False
  with assms have R: "js_gt R (Fin 0)" and n: "js_gt n (Fin 0)"
    by (auto simp add: js_le_def js_gt_def js_lt_def)
  from fdiv_positive [OF fdiv_100 [OF R] n] show ?thesis
  proof
    assume "fdiv (fdiv R (Fin 100)) n = NaN"
    then show ?thesis by (simp add: fadd_def js_le_def)
  next
    assume "at_least 0 (fdiv (fdiv R (Fin 100)) n)"
    then show ?thesis by (intro at_least_not_le fadd_1)
  qed
qed

lemma ratio_not_le_0:
  assumes "\<not> js_le A (Fin 0)" and "\<not> js_le P (Fin 0)" and "\<not> js_lt A P" and "\<not> js_seq A P"
  shows "\<not> js_le (fdiv A P) (Fin 0)"
proof (cases "isNaN A \<or> isNaN P")
  case True
  then have "fdiv A P = NaN" by (cases A; cases P) (simp_all add: fdiv_def)
  then show ?thesis by (simp add: js_le_def)
next
  case False
  with assms have "js_gt A P" and "js_gt P (Fin 0)"
    by (auto simp add: js_le_def js_gt_def js_lt_def js_seq_def)
  then consider p where "A = PInf" "P = Fin p" "0 < p" | a p where "A = Fin a" "P = Fin p" "0 < p" "p < a"
    by (cases A; cases P) (simp_all add: js_gt_def js_lt_def)
  then have "at_least 1 (fdiv A P)"
  proof cases
    case 1
    then show ?thesis by (simp add: fdiv_def inf_signed_def at_least_def)
  next
    case 2
    then have "1 \<le> a / p" by simp
    from fl_at_least_1 [OF this] 2 show ?thesis
      by (simp add: fdiv_def)
  qed
  then show ?thesis by (rule at_least_not_le)
qed

lemma nonneg_cases:
  assumes "js_le (Fin 0) R"
  shows "R = PInf \<or> R = NZero \<or> (\<exists>r. R = Fin r \<and> 0 \<le> r)"
  using assms by (cases R) (simp_all add: js_le_def)

lemma growth_base_cases:
  assumes "js_le (Fin 0) R" and "js_gt n (Fin 0)"
  shows "fadd (Fin 1) (fdiv (fdiv R (Fin 100)) n) = NaN
    \<or> at_least 1 (fadd (Fin 1) (fdiv (fdiv R (Fin 100)) n))"
proof -
  from nonneg_cases [OF assms(1)] have "R = NZero \<or> js_gt R (Fin 0) \<or> R = Fin 0"
    by (auto simp add: js_gt_def js_lt_def less_le)
  then consider "R = NZero" | "js_gt R (Fin 0)" | "R = Fin 0" by blast
  then show ?thesis
  proof cases
    case 1
    from positive_cases [OF assms(2)] have "fdiv NZero n = NZero"
      by (auto simp add: fdiv_def zero_signed_def fl_def round64_0)
    moreover have "fdiv NZero (Fin 100) = NZero"
      by (simp add: fdiv_def fl_def round64_0)
    ultimately show ?thesis
      using 1 fl_at_least_1 [of 1 False] by (simp add: fadd_def)
  next
    case 2
    from fdiv_positive [OF fdiv_100 [OF 2] assms(2)] show ?thesis
    proof
      assume "fdiv (fdiv R (Fin 100)) n = NaN"
      then show ?thesis by (simp add: fadd_def)
    next
      assume "at_least 0 (fdiv (fdiv R (Fin 100)) n)"
      then show ?thesis by (intro disjI2 fadd_1)
    qed
  next
    case 3
    have z: "fdiv (Fin 0) (Fin 100) = Fin 0"
      by (simp add: fdiv_def fl_def round64_0)
    have "at_least 0 (Fin 0)" by (simp add: at_least_def)
    from fdiv_positive [OF this assms(2)] show ?thesis
    proof
      assume "fdiv (Fin 0) n = NaN"
      then show ?thesis by (simp add: 3 z fadd_def)
    next
      assume "at_least 0 (fdiv (Fin 0) n)"
      then show ?thesis unfolding 3 z by (intro disjI2 fadd_1)
    qed
  qed
qed

lemma exponent_cases:
  assumes "js_gt n (Fin 0)" and "js_gt T (Fin 0)"
  shows "at_least 0 (fmul n T)"
proof -
  from positive_cases [OF assms(1)] positive_cases [OF assms(2)]
  consider "n = PInf \<or> T = PInf" | a b where "n = Fin a" "T = Fin b" "0 < a" "0 < b"
    by blast
  then show ?thesis
  proof cases
    case 1
    with positive_cases [OF assms(1)] positive_cases [OF assms(2)] show ?thesis
      by (auto simp add: fmul_def inf_signed_def at_least_def)
  next
    case 2
    then have "0 \<le> a * b" by simp
    from fl_at_least_0 [OF this] 2 show ?thesis
      by (simp add: fmul_def not_less [symmetric] less_imp_le)
  qed
qed

lemma pow_ref_growth:
  assumes "b = NaN \<or> at_least 1 b" and "at_least 0 e" and "isFinite (pow_ref b e)"
  shows "\<exists>g. pow_ref b e = Fin g \<and> 1 \<le> g"
proof -
  from assms(2) consider "e = PInf" | "e = Fin 0" | y where "e = Fin y" "0 < y"
    by (auto simp add: at_least_def less_le)
  then show ?thesis
  proof cases
    case 1
    with assms(1,3) show ?thesis
      by (auto simp add: pow_ref_def at_least_def js_gt_def js_lt_def split: if_splits)
  next
    case 2
    then show ?thesis by (simp add: pow_ref_def)
  next
    case 3
    from assms(1) consider "b = NaN" | "b = PInf" | x where "b = Fin x" "1 \<le> x"
      by (auto simp add: at_least_def)
    then show ?thesis
    proof cases
      case 1
      with 3 assms(3) show ?thesis by (simp add: pow_ref_def)
    next
      case 2
      with 3 assms(3) show ?thesis by (simp add: pow_ref_def js_gt_def js_lt_def)
    next
      case b: 3
      then have p: "pow_ref b e = fl False (x powr y)"
        using 3 by (simp add: pow_ref_positive)
      have "1 \<le> x powr y" using b 3 by (simp add: ge_one_powr_ge_zero)
      from fl_at_least_1 [OF this, of False] assms(3) show ?thesis
        by (auto simp add: p at_least_def)
    qed
  qed
qed

text \<open>
  On the sample host the growth factor \<open>Math.pow(1 + (R / 100) / n, n * T)\<close> of a rate
  \<open>R >= 0\<close>, a time \<open>T > 0\<close> and a frequency \<open>n > 0\<close> is at least 1 whenever it is finite.
\<close>

lemma sample_host_growth:
  assumes "js_le (Fin 0) R" and "js_gt T (Fin 0)" and "js_gt n (Fin 0)"
    and "isFinite (Math_pow sample_host (fadd (Fin 1) (fdiv (fdiv R (Fin 100)) n)) (fmul n T))"
  shows "\<exists>g. Math_pow sample_host (fadd (Fin 1) (fdiv (fdiv R (Fin 100)) n)) (fmul n T) = Fin g
    \<and> 1 \<le> g"
proof -
  have "Math_pow sample_host = pow_ref" by (simp add: sample_host_def)
  with pow_ref_growth [OF growth_base_cases [OF assms(1,3)] exponent_cases [OF assms(3,2)]] assms(4)
  show ?thesis by simp
qed

section \<open>Properties of the solvers\<close>

text \<open>
  Claim C1.  For every input, \<open>calculateFinalAmount\<close> fails exactly when \<open>P <= 0\<close>,
  \<open>R < 0\<close>, \<open>T <= 0\<close> or \<open>n <= 0\<close>, the failure is an \<open>InvalidInput\<close>, and otherwise it
  returns the value \<open>P * Math.pow(1 + (R / 100) / n, n * T)\<close>, computed in double
  arithmetic.
\<close>

theorem calculateFinalAmount_spec:
  "(r_error (calculateFinalAmount js P R T n) \<noteq> None
      \<longleftrightarrow> js_le P (Fin 0) \<or> js_lt R (Fin 0) \<or> js_le T (Fin 0) \<or> js_le n (Fin 0))
   \<and> (failure_class (calculateFinalAmount js P R T n) = Some InvalidInput
      \<longleftrightarrow> js_le P (Fin 0) \<or> js_lt R (Fin 0) \<or> js_le T (Fin 0) \<or> js_le n (Fin 0))
   \<and> (\<not> (js_le P (Fin 0) \<or> js_lt R (Fin 0) \<or> js_le T (Fin 0) \<or> js_le n (Fin 0)) \<longrightarrow>
        calculateFinalAmount js P R T n =
          value_result
            (fmul P (Math_pow js (fadd (Fin 1) (fdiv (fdiv R (Fin 100)) n)) (fmul n T))))"
  by (simp add: calculateFinalAmount_def failure_class_def error_result_def value_result_def
      error_class_of_def Let_def)

theorem calculateFinalAmount_spec_witness:
  "failure_class (calculateFinalAmount sample_host (Fin (- 5)) (Fin 5) (Fin 1) (Fin 12))
      = Some InvalidInput
   \<and> calculateFinalAmount sample_host (Fin 1000) (Fin 5) (Fin 1) (Fin 12) =
       value_result
         (fmul (Fin 1000)
           (Math_pow sample_host (fadd (Fin 1) (fdiv (fdiv (Fin 5) (Fin 100)) (Fin 12)))
             (fmul (Fin 12) (Fin 1))))"
proof -
  have bad: "js_le (Fin (- 5)) (Fin 0)"
    by (simp add: js_le_def)
  have good: "\<not> (js_le (Fin 1000) (Fin 0) \<or> js_lt (Fin 5) (Fin 0) \<or> js_le (Fin 1) (Fin 0)
      \<or> js_le (Fin 12) (Fin 0))"
    by (simp add: js_le_def js_lt_def)
  from calculateFinalAmount_spec [of sample_host "Fin (- 5)" "Fin 5" "Fin 1" "Fin 12"] bad
  have "failure_class (calculateFinalAmount sample_host (Fin (- 5)) (Fin 5) (Fin 1) (Fin 12))
      = Some InvalidInput"
    by blast
  moreover from calculateFinalAmount_spec [of sample_host "Fin 1000" "Fin 5" "Fin 1" "Fin 12"] good
  have "calculateFinalAmount sample_host (Fin 1000) (Fin 5) (Fin 1) (Fin 12) =
       value_result
         (fmul (Fin 1000)
           (Math_pow sample_host (fadd (Fin 1) (fdiv (fdiv (Fin 5) (Fin 100)) (Fin 12)))
             (fmul (Fin 12) (Fin 1))))"
    by blast
  ultimately show ?thesis by blast
qed

text \<open>
  Claim C2, as stated: for all \<open>P > 0\<close>, \<open>R >= 0\<close>, \<open>T > 0\<close>, \<open>n > 0\<close>, the principal
  computed from the amount that \<open>calculateFinalAmount\<close> returns is approximately \<open>P\<close>.
  Not when the amount overflows: for \<open>P = 1\<close>, \<open>R = 100\<close>, \<open>T = 2000\<close>, \<open>n = 1\<close> the growth
  factor \<open>2^2000\<close> is \<open>Infinity\<close>, so is the amount, and the principal computed from it is
  \<open>Infinity / Infinity\<close>, which is NaN.
\<close>

theorem roundtrip_overflow:
  "r_value (calculateFinalAmount sample_host (Fin 1) (Fin 100) (Fin 2000) (Fin 1)) = Some PInf
   \<and> r_value (calculatePrincipal sample_host PInf (Fin 100) (Fin 2000) (Fin 1)) = Some NaN"
proof -
  have e: "fmul (Fin 1) (Fin 2000) = Fin 2000" by (simp add: fmul_def fl_2000)
  have pow: "Math_pow sample_host (fadd (Fin 1) (fdiv (fdiv (Fin 100) (Fin 100)) (Fin 1)))
      (fmul (Fin 1) (Fin 2000)) = PInf"
    by (simp add: sample_host_def sample_growth_2 e pow_ref_2_2000)
  have 1: "fmul (Fin 1) PInf = PInf" by (simp add: fmul_def inf_signed_def)
  have 2: "fdiv PInf PInf = NaN" by (simp add: fdiv_def)
  show ?thesis
    by (simp add: calculateFinalAmount_def calculatePrincipal_def Let_def pow 1 2 js_le_def
        js_lt_def value_result_def)
qed

text \<open>
  Claim C2, amended: for every double \<open>P > 0\<close> and all \<open>R >= 0\<close>, \<open>T > 0\<close>, \<open>n > 0\<close>, on a
  host whose \<open>Math.pow\<close> returns for them a finite growth factor of at least 1 (its base
  \<open>1 + (R / 100) / n\<close> is at least 1 and its exponent \<open>n * T\<close> is positive), if the amount
  that \<open>calculateFinalAmount\<close> returns is finite, then \<open>calculatePrincipal\<close> returns from
  it a value \<open>P'\<close> with \<open>|P' - P| <= 2^-51 * P\<close>, which is within \<open>1e-9 * P\<close>.  The
  sample host is such a host whenever its growth factor is finite (lemma
  \<open>sample_host_growth\<close>).
\<close>

theorem roundtrip_within_tolerance:
  assumes p: "0 < p" and rep: "round64 p = p"
    and R: "js_le (Fin 0) R" and T: "js_gt T (Fin 0)" and n: "js_gt n (Fin 0)"
    and pow: "Math_pow js (fadd (Fin 1) (fdiv (fdiv R (Fin 100)) n)) (fmul n T) = Fin g"
    and g: "1 \<le> g"
    and amount: "r_value (calculateFinalAmount js (Fin p) R T n) = Some A"
    and finite: "isFinite A"
  shows "\<exists>p'. calculatePrincipal js A R T n = value_result (Fin p')
    \<and> \<bar>p' - p\<bar> \<le> p * 2 powi (- 51) \<and> \<bar>p' - p\<bar> \<le> p / 10 ^ 9"
proof -
  have guard: "\<not> js_lt R (Fin 0)" "\<not> js_le T (Fin 0)" "\<not> js_le n (Fin 0)"
    using R T n by (auto simp add: js_le_def js_lt_def js_gt_def)
  have gp: "\<not> js_le (Fin p) (Fin 0)"
    using p by (simp add: js_le_def)
  have "calculateFinalAmount js (Fin p) R T n = value_result (fmul (Fin p) (Fin g))"
    using gp guard by (simp add: calculateFinalAmount_def Let_def pow)
  with amount have A: "A = fl False (p * g)"
    using p g by (simp add: value_result_def fmul_def)
  have fin: "round64 (p * g) < 2 ^ 1024"
  proof (rule ccontr)
    assume "\<not> round64 (p * g) < 2 ^ 1024"
    then have "A = PInf" by (simp add: A fl_def)
    with finite show False by simp
  qed
  note b = roundtrip_bounds [OF p rep g fin]
  from b(1) fin have A': "A = Fin (round64 (p * g))"
    by (simp add: A fl_def)
  have ga: "\<not> js_le A (Fin 0)"
    using b(1) by (simp add: A' js_le_def)
  have "calculatePrincipal js A R T n = value_result (fdiv A (Fin g))"
    using ga guard by (simp add: calculatePrincipal_def Let_def pow)
  also have "fdiv A (Fin g) = fl False (round64 (p * g) / g)"
    using b(1) g by (simp add: A' fdiv_def)
  also have "\<dots> = Fin (round64 (round64 (p * g) / g))"
    using b(2,3) by (simp add: fl_def)
  finally have "calculatePrincipal js A R T n
      = value_result (Fin (round64 (round64 (p * g) / g)))" .
  moreover have "p * 2 powi (- 51) \<le> p / 10 ^ 9"
  proof -
    have "(2::real) powi (- 51) \<le> 1 / 10 ^ 9"
      by (simp add: power_int_minus field_simps)
    then have "p * 2 powi (- 51) \<le> p * (1 / 10 ^ 9)"
      using p by (intro mult_left_mono) simp_all
    then show ?thesis by simp
  qed
  ultimately show ?thesis
    using b(4) by (intro exI [of _ "round64 (round64 (p * g) / g)"]) linarith
qed

theorem roundtrip_within_tolerance_witness:
  "(0::real) < 1000 \<and> round64 1000 = 1000
   \<and> js_le (Fin 0) (Fin 100) \<and> js_gt (Fin 2) (Fin 0) \<and> js_gt (Fin 1) (Fin 0)
   \<and> Math_pow sample_host (fadd (Fin 1) (fdiv (fdiv (Fin 100) (Fin 100)) (Fin 1)))
        (fmul (Fin 1) (Fin 2)) = Fin 4
   \<and> r_value (calculateFinalAmount sample_host (Fin 1000) (Fin 100) (Fin 2) (Fin 1))
        = Some (Fin 4000)
   \<and> (\<exists>p'. calculatePrincipal sample_host (Fin 4000) (Fin 100) (Fin 2) (Fin 1)
          = value_result (Fin p')
        \<and> \<bar>p' - 1000\<bar> \<le> 1000 / 10 ^ 9)"
proof -
  have p: "(0::real) < 1000" by simp
  have rep: "round64 1000 = 1000"
    using round64_exact [of 1000 1000 0] by simp
  have R: "js_le (Fin 0) (Fin 100)" and T: "js_gt (Fin 2) (Fin 0)"
    and n: "js_gt (Fin 1) (Fin 0)"
    by (simp_all add: js_le_def js_gt_def js_lt_def)
  have e: "fmul (Fin 1) (Fin 2) = Fin 2" by (simp add: fmul_def fl_2)
  have "pow_ref (Fin 2) (Fin 2) = Fin 4"
    by (simp add: pow_ref_def integral_def fl_4)
  then have pow: "Math_pow sample_host (fadd (Fin 1) (fdiv (fdiv (Fin 100) (Fin 100)) (Fin 1)))
      (fmul (Fin 1) (Fin 2)) = Fin 4"
    by (simp add: sample_host_def sample_growth_2 e)
  have g: "(1::real) \<le> 4" by simp
  have "fmul (Fin 1000) (Fin 4) = Fin 4000" by (simp add: fmul_def fl_4000)
  then have amount:
    "r_value (calculateFinalAmount sample_host (Fin 1000) (Fin 100) (Fin 2) (Fin 1))
      = Some (Fin 4000)"
    using pow by (simp add: calculateFinalAmount_def Let_def js_le_def js_lt_def value_result_def)
  have finite: "isFinite (Fin 4000)" by simp
  from roundtrip_within_tolerance [OF p rep R T n pow g amount finite] p rep R T n pow amount
  show ?thesis by blast
qed

text \<open>
  In \<open>calculateRate\<close> the test \<open>base < 0\<close> never succeeds: past the two guards the
  quotient \<open>A / P\<close> is NaN, infinite or at least 1.
\<close>

lemma calculateRate_base_not_negative:
  assumes "\<not> js_le A (Fin 0)" and "\<not> js_le P (Fin 0)" and "\<not> js_lt A P"
  shows "\<not> js_lt (fdiv A P) (Fin 0)"
proof (cases "isNaN A \<or> isNaN P")
  case True
  then have "fdiv A P = NaN" by (cases A; cases P) (simp_all add: fdiv_def)
  then show ?thesis by (simp add: js_lt_def)
next
  case False
  with assms consider "A = PInf" "P = PInf" | p where "A = PInf" "P = Fin p" "0 < p"
    | a p where "A = Fin a" "P = Fin p" "0 < p" "p \<le> a"
    by (cases A; cases P) (simp_all add: js_le_def js_lt_def not_less not_le)
  then show ?thesis
  proof cases
    case 1
    then show ?thesis by (simp add: fdiv_def js_lt_def)
  next
    case 2
    then show ?thesis by (simp add: fdiv_def inf_signed_def js_lt_def)
  next
    case 3
    then have "1 \<le> a / p" by simp
    from fl_at_least_1 [OF this, of False] 3 show ?thesis
      by (auto simp add: fdiv_def at_least_def js_lt_def)
  qed
qed

lemma calculateRate_cases:
  "calculateRate js A P T n =
    (if js_le A (Fin 0) \<or> js_le P (Fin 0) \<or> js_le T (Fin 0) \<or> js_le n (Fin 0)
       then error_result E_rate_positive
     else if js_lt A P then error_result E_rate_less
     else if \<not> isFinite
         (fmul n (fsub (Math_pow js (fdiv A P) (fdiv (Fin 1) (fmul n T))) (Fin 1)))
       then error_result E_rate_invalid
     else value_result
       (fmul (fmul n (fsub (Math_pow js (fdiv A P) (fdiv (Fin 1) (fmul n T))) (Fin 1)))
         (Fin 100)))"
proof -
  have nan: "isNaN v \<Longrightarrow> \<not> isFinite v" for v
    by (cases v) simp_all
  show ?thesis
    using calculateRate_base_not_negative [of A P] nan
    by (auto simp add: calculateRate_def Let_def)
qed

text \<open>
  Claim C3 reads: the rate solver fails when its result is not a number or infinite.
  The function tests the decimal rate before it multiplies by 100, and the product can
  overflow: for \<open>A = 2^1020\<close> (a double, about 1.12e307) and \<open>P = T = n = 1\<close> the decimal
  rate is the finite \<open>2^1020\<close>, and the function returns the value \<open>Infinity\<close>, on every
  host whose \<open>Math.pow(x, 1)\<close> is \<open>x\<close> there.
\<close>

theorem calculateRate_returns_Infinity:
  assumes "Math_pow js (Fin (2 ^ 1020)) (Fin 1) = Fin (2 ^ 1020)"
  shows "calculateRate js (Fin (2 ^ 1020)) (Fin 1) (Fin 1) (Fin 1) = value_result PInf"
proof -
  have base: "fdiv (Fin (2 ^ 1020)) (Fin 1) = Fin (2 ^ 1020)"
    using fl_2_1020 by (simp add: fdiv_def)
  have exponent: "fdiv (Fin 1) (fmul (Fin 1) (Fin 1)) = Fin 1"
    by (simp add: fdiv_def fmul_def fl_1)
  have sub: "fsub (Fin (2 ^ 1020)) (Fin 1) = Fin (2 ^ 1020)"
    using fl_below_2_1020 by (simp add: fsub_def fadd_def)
  have R_decimal: "fmul (Fin 1) (Fin (2 ^ 1020)) = Fin (2 ^ 1020)"
    using fl_2_1020 by (simp add: fmul_def)
  have R_annual: "fmul (Fin (2 ^ 1020)) (Fin 100) = PInf"
    using fl_overflow_100 by (simp add: fmul_def)
  have guard: "\<not> js_le (Fin (2 ^ 1020)) (Fin 0)" "\<not> js_le (Fin 1) (Fin 0)"
    "\<not> js_lt (Fin (2 ^ 1020)) (Fin 1)" "\<not> js_lt (Fin (2 ^ 1020)) (Fin 0)"
    by (simp_all add: js_le_def js_lt_def)
  show ?thesis
    by (simp only: calculateRate_def Let_def base exponent assms sub R_decimal R_annual guard
        isNaN.simps isFinite.simps simp_thms if_False if_True)
qed

theorem calculateRate_returns_Infinity_witness:
  "Math_pow sample_host (Fin (2 ^ 1020)) (Fin 1) = Fin (2 ^ 1020)
   \<and> calculateRate sample_host (Fin (2 ^ 1020)) (Fin 1) (Fin 1) (Fin 1) = value_result PInf"
proof -
  have p: "Math_pow sample_host (Fin (2 ^ 1020)) (Fin 1) = Fin (2 ^ 1020)"
    using fl_2_1020 by (simp add: sample_host_def pow_ref_def integral_def)
  from calculateRate_returns_Infinity [OF p] p show ?thesis by blast
qed

text \<open>
  Claim C4, as stated: \<open>calculateTime(1000, 1200, 0, 12)\<close> fails with a
  \<open>DomainViolation\<close>.  It does not: the first guard of the function rejects every rate
  \<open>R <= 0\<close>, so the failure is the guard's, an \<open>InvalidInput\<close>.
\<close>

theorem calculateTime_zero_rate_not_DomainViolation:
  "failure_class (calculateTime sample_host (Fin 1000) (Fin 1200) (Fin 0) (Fin 12))
     \<noteq> Some DomainViolation"
  by (simp add: calculateTime_def js_le_def failure_class_def error_result_def
      error_class_of_def)

text \<open>
  Claim C4, amended: \<open>calculateTime(1000, 1200, 0, 12)\<close> fails with the message of the
  positivity guard, an \<open>InvalidInput\<close>, on every host.
\<close>

theorem calculateTime_zero_rate_InvalidInput:
  "calculateTime js (Fin 1000) (Fin 1200) (Fin 0) (Fin 12) = error_result E_time_positive
   \<and> failure_class (calculateTime js (Fin 1000) (Fin 1200) (Fin 0) (Fin 12))
       = Some InvalidInput"
  by (simp add: calculateTime_def js_le_def failure_class_def error_result_def
      error_class_of_def)

theorem calculateTime_zero_rate_InvalidInput_witness:
  "failure_class (calculateTime sample_host (Fin 1000) (Fin 1200) (Fin 0) (Fin 12))
     = Some InvalidInput"
  using calculateTime_zero_rate_InvalidInput [of sample_host] by blast

text \<open>
  Claim C5.  For every \<open>A > 0\<close>, \<open>P > 0\<close>, \<open>R > 0\<close>, \<open>n > 0\<close> with \<open>A === P\<close>,
  \<open>calculateTime\<close> returns the value 0.  The result is the same on every host, whatever
  its \<open>Math.log\<close> returns: the logarithmic formula plays no part in it.
\<close>

theorem calculateTime_equal_amounts:
  assumes "js_gt A (Fin 0)" and "js_gt P (Fin 0)" and "js_gt R (Fin 0)" and "js_gt n (Fin 0)"
    and "js_seq A P"
  shows "calculateTime js A P R n = value_result (Fin 0)"
  using assms
  by (auto simp add: calculateTime_def js_le_def js_gt_def js_lt_def js_seq_def)

theorem calculateTime_equal_amounts_witness:
  "js_gt (Fin 1000) (Fin 0) \<and> js_gt (Fin 5) (Fin 0) \<and> js_gt (Fin 12) (Fin 0)
   \<and> js_seq (Fin 1000) (Fin 1000)
   \<and> calculateTime sample_host (Fin 1000) (Fin 1000) (Fin 5) (Fin 12) = value_result (Fin 0)"
proof -
  have a: "js_gt (Fin 1000) (Fin 0)" and r: "js_gt (Fin 5) (Fin 0)"
    and n: "js_gt (Fin 12) (Fin 0)" and e: "js_seq (Fin 1000) (Fin 1000)"
    by (simp_all add: js_gt_def js_lt_def js_seq_def)
  from calculateTime_equal_amounts [OF a a r n e] a r n e show ?thesis
    by blast
qed

subsection \<open>Branches of the time solver\<close>

lemma seq_0_le: "js_seq R (Fin 0) \<Longrightarrow> js_le R (Fin 0)"
  by (simp add: js_seq_def js_le_def)

lemma calculateTime_never_zero_rate:
  "r_error (calculateTime js A P R n) \<noteq> Some E_time_zero_rate"
  by (simp add: calculateTime_def Let_def error_result_def value_result_def seq_0_le)

lemma calculateTime_never_log:
  "r_error (calculateTime js A P R n) \<noteq> Some E_time_log"
  using growth_base_not_le_0 [of R n]
  by (auto simp add: calculateTime_def Let_def error_result_def value_result_def seq_0_le)

lemma calculateTime_ratio_error:
  assumes "\<not> isNaN R"
  shows "r_error (calculateTime js A P R n) \<noteq> Some E_time_ratio"
proof (cases "js_le A (Fin 0) \<or> js_le P (Fin 0) \<or> js_le R (Fin 0) \<or> js_le n (Fin 0)")
  case True
  then show ?thesis
    by (simp add: calculateTime_def error_result_def)
next
  case guard: False
  with assms have R: "js_gt R (Fin 0)"
    by (cases R) (simp_all add: js_le_def js_gt_def js_lt_def)
  show ?thesis
  proof (cases "js_lt A P \<or> js_seq A P")
    case True
    with guard R show ?thesis
      by (auto simp add: calculateTime_def error_result_def value_result_def)
  next
    case False
    with guard have "\<not> js_le (fdiv A P) (Fin 0)"
      by (intro ratio_not_le_0) simp_all
    with guard False R show ?thesis
      by (simp add: calculateTime_def Let_def error_result_def value_result_def seq_0_le)
  qed
qed

text \<open>
  A rate that is NaN passes the guard, because \<open>NaN <= 0\<close> is false.  When the quotient
  \<open>A / P\<close> then underflows to zero, the test \<open>A / P <= 0\<close> succeeds.
\<close>

lemma calculateTime_NaN_rate:
  assumes "fdiv A P = Fin 0" and "js_gt A (Fin 0)" and "js_gt P (Fin 0)" and "js_gt n (Fin 0)"
    and "Math_log js NaN = NaN"
  shows "calculateTime js A P NaN n = error_result E_time_ratio"
proof -
  have d: "fmul n (Math_log js (fadd (Fin 1) (fdiv (fdiv NaN (Fin 100)) n))) = NaN"
    by (simp add: fmul_def fadd_def fdiv_def assms(5))
  from assms(2-4) have g: "\<not> js_le A (Fin 0)" "\<not> js_le P (Fin 0)" "\<not> js_le n (Fin 0)"
    by (auto simp add: js_le_def js_gt_def js_lt_def)
  have nan: "\<not> js_le NaN (Fin 0)" "\<not> js_gt NaN (Fin 0)" "\<not> js_seq NaN (Fin 0)"
    "js_le (Fin 0) (Fin 0)"
    by (simp_all add: js_le_def js_gt_def js_lt_def js_seq_def)
  show ?thesis
    by (simp add: calculateTime_def Let_def d assms(1) g nan)
qed

text \<open>
  Claim C10, as stated: for every input, \<open>calculateTime\<close> never returns the error
  ``Cannot calculate time with non-positive A/P ratio.''.  It does for the smallest
  positive double as amount, principal 4, a NaN rate and frequency 12.
\<close>

theorem calculateTime_ratio_error_reached:
  "r_error (calculateTime sample_host (Fin (2 powi (- 1074))) (Fin 4) NaN (Fin 12))
     = Some E_time_ratio"
proof -
  have "fdiv (Fin (2 powi (- 1074))) (Fin 4) = Fin 0"
    using fl_underflow by (simp add: fdiv_def)
  moreover have "js_gt (Fin (2 powi (- 1074))) (Fin 0)" "js_gt (Fin 4) (Fin 0)"
    "js_gt (Fin 12) (Fin 0)"
    by (simp_all add: js_gt_def js_lt_def)
  moreover have "Math_log sample_host NaN = NaN"
    by (simp add: sample_host_def log_ref_def)
  ultimately have "calculateTime sample_host (Fin (2 powi (- 1074))) (Fin 4) NaN (Fin 12)
      = error_result E_time_ratio"
    by (rule calculateTime_NaN_rate)
  then show ?thesis by (simp only: error_result_def result.simps)
qed

text \<open>
  Claim C10, amended: for every input, \<open>calculateTime\<close> never returns the errors ``Rate
  must be greater than 0 for Amount to grow.'' and ``Cannot calculate time due to log of
  non-positive value in denominator.'', and for every input whose rate is not NaN it
  never returns ``Cannot calculate time with non-positive A/P ratio.''.
\<close>

theorem calculateTime_unreachable_errors:
  "r_error (calculateTime js A P R n) \<noteq> Some E_time_zero_rate
   \<and> r_error (calculateTime js A P R n) \<noteq> Some E_time_log
   \<and> (\<not> isNaN R \<longrightarrow> r_error (calculateTime js A P R n) \<noteq> Some E_time_ratio)"
  using calculateTime_never_zero_rate [of js A P R n] calculateTime_never_log [of js A P R n]
    calculateTime_ratio_error [of R js A P n]
  by blast

theorem calculateTime_unreachable_errors_witness:
  "\<not> isNaN (Fin 5)
   \<and> r_error (calculateTime sample_host (Fin 2000) (Fin 1000) (Fin 5) (Fin 12))
       \<noteq> Some E_time_ratio
   \<and> r_error (calculateTime sample_host (Fin 2000) (Fin 1000) (Fin 5) (Fin 12))
       \<noteq> Some E_time_zero_rate
   \<and> r_error (calculateTime sample_host (Fin 2000) (Fin 1000) (Fin 5) (Fin 12))
       \<noteq> Some E_time_log"
proof -
  have "\<not> isNaN (Fin 5)" by simp
  with calculateTime_unreachable_errors [of sample_host "Fin 2000" "Fin 1000" "Fin 5" "Fin 12"]
  show ?thesis by blast
qed

subsection \<open>Shape of the results\<close>

text \<open>
  Claim C7.  For every input, \<open>calculateFrequency\<close> returns the advisory message; the
  result carries neither a value nor an error.
\<close>

theorem calculateFrequency_advisory:
  "calculateFrequency A P R T = message_result frequency_advisory
   \<and> r_message (calculateFrequency A P R T) = Some frequency_advisory
   \<and> r_value (calculateFrequency A P R T) = None
   \<and> r_error (calculateFrequency A P R T) = None"
  by (simp add: calculateFrequency_def message_result_def)

theorem calculateFrequency_advisory_witness:
  "r_message (calculateFrequency (Fin 2000) (Fin 1000) (Fin 5) (Fin 10)) = Some frequency_advisory
   \<and> r_value (calculateFrequency NaN (Fin (- 1)) PInf (Fin 0)) = None
   \<and> r_error (calculateFrequency NaN (Fin (- 1)) PInf (Fin 0)) = None"
  using calculateFrequency_advisory [of "Fin 2000" "Fin 1000" "Fin 5" "Fin 10"]
    calculateFrequency_advisory [of NaN "Fin (- 1)" PInf "Fin 0"]
  by blast

text \<open>
  Each solver returns a result with exactly one property, and one that the controller
  renders without reaching its fallback branch.
\<close>

lemma calculateFinalAmount_shape:
  "exactly_one (calculateFinalAmount js P R T n)
   \<and> r_message (calculateFinalAmount js P R T n) = None
   \<and> render_branch (calculateFinalAmount js P R T n) \<noteq> Unexpected"
  by (simp add: calculateFinalAmount_def exactly_one_def render_branch_def error_result_def
      value_result_def Let_def)

lemma calculatePrincipal_shape:
  "exactly_one (calculatePrincipal js A R T n)
   \<and> r_message (calculatePrincipal js A R T n) = None
   \<and> render_branch (calculatePrincipal js A R T n) \<noteq> Unexpected"
  by (simp add: calculatePrincipal_def exactly_one_def render_branch_def error_result_def
      value_result_def Let_def)

lemma calculateRate_shape:
  "exactly_one (calculateRate js A P T n)
   \<and> r_message (calculateRate js A P T n) = None
   \<and> render_branch (calculateRate js A P T n) \<noteq> Unexpected"
  by (simp add: calculateRate_def exactly_one_def render_branch_def error_result_def
      value_result_def Let_def)

lemma calculateTime_shape:
  "exactly_one (calculateTime js A P R n)
   \<and> r_message (calculateTime js A P R n) = None
   \<and> render_branch (calculateTime js A P R n) \<noteq> Unexpected"
  by (simp add: calculateTime_def exactly_one_def render_branch_def error_result_def
      value_result_def Let_def)

lemma calculateFrequency_shape:
  "exactly_one (calculateFrequency A P R T)
   \<and> r_message (calculateFrequency A P R T) \<noteq> None
   \<and> render_branch (calculateFrequency A P R T) \<noteq> Unexpected"
  by (simp add: calculateFrequency_def exactly_one_def render_branch_def message_result_def)

text \<open>
  Claim C8.  Every call of any of the five solvers returns a result that carries exactly
  one of the three properties \<open>error\<close>, \<open>message\<close> and \<open>value\<close>; only the frequency solver
  returns a message; and the controller's chain of tests never reaches the
  ``unexpected error'' branch on a solver's result.
\<close>

theorem solver_results_exactly_one:
  "exactly_one (calculateFinalAmount js P R T n)
   \<and> exactly_one (calculatePrincipal js A R T n)
   \<and> exactly_one (calculateRate js A P T n)
   \<and> exactly_one (calculateTime js A P R n)
   \<and> exactly_one (calculateFrequency A P R T)
   \<and> r_message (calculateFinalAmount js P R T n) = None
   \<and> r_message (calculatePrincipal js A R T n) = None
   \<and> r_message (calculateRate js A P T n) = None
   \<and> r_message (calculateTime js A P R n) = None
   \<and> render_branch (calculateFinalAmount js P R T n) \<noteq> Unexpected
   \<and> render_branch (calculatePrincipal js A R T n) \<noteq> Unexpected
   \<and> render_branch (calculateRate js A P T n) \<noteq> Unexpected
   \<and> render_branch (calculateTime js A P R n) \<noteq> Unexpected
   \<and> render_branch (calculateFrequency A P R T) \<noteq> Unexpected"
  using calculateFinalAmount_shape [of js P R T n] calculatePrincipal_shape [of js A R T n]
    calculateRate_shape [of js A P T n] calculateTime_shape [of js A P R n]
    calculateFrequency_shape [of A P R T]
  by blast

theorem solver_results_exactly_one_witness:
  "exactly_one (calculateFinalAmount sample_host (Fin 1000) (Fin 5) (Fin 1) (Fin 12))
   \<and> exactly_one (calculatePrincipal sample_host NaN (Fin 5) (Fin 1) (Fin 12))
   \<and> exactly_one (calculateRate sample_host NaN (Fin 1000) (Fin 1) (Fin 12))
   \<and> exactly_one (calculateTime sample_host NaN (Fin 1000) (Fin 5) (Fin 12))
   \<and> exactly_one (calculateFrequency NaN (Fin 1000) (Fin 5) (Fin 1))
   \<and> render_branch (calculateTime sample_host NaN (Fin 1000) (Fin 5) (Fin 12)) \<noteq> Unexpected"
  using solver_results_exactly_one [of sample_host "Fin 1000" "Fin 5" "Fin 1" "Fin 12" NaN]
  by blast

section \<open>Properties of the form controller\<close>

lemma wired_updateInputStates: "wired (updateInputStates d)"
  by (simp add: wired_def updateInputStates_def field_order_def enable_input_def
      disable_input_def Let_def)

lemma wired_flags:
  assumes "wired d"
  shows "el_disabled (principalInput d) = (solveForSelect d = ''principal'')"
    and "el_disabled (rateInput d) = (solveForSelect d = ''rate'')"
    and "el_disabled (timeInput d) = (solveForSelect d = ''time'')"
    and "el_disabled (frequencyInput d) = (solveForSelect d = ''frequency'')"
    and "el_disabled (amountInput d) = (solveForSelect d = ''amount'')"
  using assms by (simp_all add: wired_def field_order_def)

lemma not_positive_number: "(\<not> positive_number v) = (isNaN v \<or> js_le v (Fin 0))"
  by (cases v) (auto simp add: positive_number_def js_gt_def js_lt_def js_le_def)

lemma not_non_negative_number: "(\<not> non_negative_number v) = (isNaN v \<or> js_lt v (Fin 0))"
  by (cases v) (auto simp add: non_negative_number_def js_lt_def js_le_def)

lemma first_rejected_chain:
  "first_rejected js d =
    (if solveForSelect d \<noteq> ''principal''
        \<and> (isNaN (parseFloat js (el_value (principalInput d)))
           \<or> js_le (parseFloat js (el_value (principalInput d))) (Fin 0)) then Some Principal
     else if solveForSelect d \<noteq> ''rate''
        \<and> (isNaN (parseFloat js (el_value (rateInput d)))
           \<or> js_lt (parseFloat js (el_value (rateInput d))) (Fin 0)) then Some Rate
     else if solveForSelect d \<noteq> ''time''
        \<and> (isNaN (parseFloat js (el_value (timeInput d)))
           \<or> js_le (parseFloat js (el_value (timeInput d))) (Fin 0)) then Some Time
     else if solveForSelect d \<noteq> ''frequency''
        \<and> (isNaN (parseInt js (el_value (frequencyInput d)))
           \<or> js_le (parseInt js (el_value (frequencyInput d))) (Fin 0)) then Some Frequency
     else if solveForSelect d \<noteq> ''amount''
        \<and> (isNaN (parseFloat js (el_value (amountInput d)))
           \<or> js_le (parseFloat js (el_value (amountInput d))) (Fin 0)) then Some Amount
     else None)"
  by (auto simp add: first_rejected_def field_order_def field_number_def not_positive_number
      not_non_negative_number)


text \<open>
  When the controller rejects no field, the solver of the target is called, once.
\<close>

lemma performCalculation_dispatch:
  assumes "wired d" and "first_rejected js d = None" and "solveForSelect d = field_key f"
  shows "snd (performCalculation js d) =
    [case f of Principal \<Rightarrow> ''calculatePrincipal'' | Rate \<Rightarrow> ''calculateRate''
      | Time \<Rightarrow> ''calculateTime'' | Frequency \<Rightarrow> ''calculateFrequency''
      | Amount \<Rightarrow> ''calculateFinalAmount'']"
proof -
  note flags = wired_flags [OF assms(1)]
  let ?p = "solveForSelect d \<noteq> ''principal''
    \<and> (isNaN (parseFloat js (el_value (principalInput d)))
       \<or> js_le (parseFloat js (el_value (principalInput d))) (Fin 0))"
  let ?r = "solveForSelect d \<noteq> ''rate''
    \<and> (isNaN (parseFloat js (el_value (rateInput d)))
       \<or> js_lt (parseFloat js (el_value (rateInput d))) (Fin 0))"
  let ?t = "solveForSelect d \<noteq> ''time''
    \<and> (isNaN (parseFloat js (el_value (timeInput d)))
       \<or> js_le (parseFloat js (el_value (timeInput d))) (Fin 0))"
  let ?n = "solveForSelect d \<noteq> ''frequency''
    \<and> (isNaN (parseInt js (el_value (frequencyInput d)))
       \<or> js_le (parseInt js (el_value (frequencyInput d))) (Fin 0))"
  let ?a = "solveForSelect d \<noteq> ''amount''
    \<and> (isNaN (parseFloat js (el_value (amountInput d)))
       \<or> js_le (parseFloat js (el_value (amountInput d))) (Fin 0))"
  have "(if ?p then Some Principal else if ?r then Some Rate else if ?t then Some Time
     else if ?n then Some Frequency else if ?a then Some Amount else None) = None"
    using assms(2) by (simp only: first_rejected_chain)
  then have "\<not> ?p" "\<not> ?r" "\<not> ?t" "\<not> ?n" "\<not> ?a"
    by (simp_all split: if_splits)
  then show ?thesis using assms(3)
    by (cases f) (simp_all add: performCalculation_def Let_def flags)
qed















end
